theory Spec2Isabelle
  imports Complex_Main "HOL-Library.Word"
begin

section \<open>Single-precision values\<close>

text \<open>
  The program computes with C \<^verbatim>\<open>float\<close>. A value is a rational number, an infinity
  or a NaN; every arithmetic operation computes the exact result and rounds it to the
  nearest binary32 value, ties to even (24 significant bits, exponents from -126 to 127,
  subnormals below). Each operation is rounded on its own. The two zeros are not told
  apart: the program divides only by the constants 2, 256, 4095 and 28.8, and comparisons
  do not see the sign of a zero.
\<close>

datatype f32 = Finite rat | PInf | NInf | NaN

definition pow2 :: "int \<Rightarrow> rat" where
  "pow2 e = (if 0 \<le> e then 2 ^ nat e else 1 / 2 ^ nat (- e))"

text \<open>The exponent of the binade of \<open>a\<close>, searched downwards from 127 and not below -126.\<close>

fun binade :: "nat \<Rightarrow> rat \<Rightarrow> int" where
  "binade 0 a = - 126"
| "binade (Suc k) a = (if pow2 (int k - 125) \<le> a then int k - 125 else binade k a)"

definition round_half_even :: "rat \<Rightarrow> int" where
  "round_half_even q =
     (let n = \<lfloor>q\<rfloor>; r = q - of_int n
      in if r < 1 / 2 then n else if 1 / 2 < r then n + 1 else if even n then n else n + 1)"

definition round32 :: "rat \<Rightarrow> f32" where
  "round32 x =
     (if x = 0 then Finite 0
      else let a = \<bar>x\<bar>; u = pow2 (binade 253 a - 23);
               m = of_int (round_half_even (a / u)) * u
           in if pow2 128 \<le> m then (if x < 0 then NInf else PInf)
              else Finite (if x < 0 then - m else m))"

fun fadd :: "f32 \<Rightarrow> f32 \<Rightarrow> f32" where
  "fadd NaN _ = NaN"
| "fadd _ NaN = NaN"
| "fadd PInf NInf = NaN"
| "fadd NInf PInf = NaN"
| "fadd PInf _ = PInf"
| "fadd _ PInf = PInf"
| "fadd NInf _ = NInf"
| "fadd _ NInf = NInf"
| "fadd (Finite a) (Finite b) = round32 (a + b)"

fun fneg :: "f32 \<Rightarrow> f32" where
  "fneg (Finite a) = Finite (- a)"
| "fneg PInf = NInf"
| "fneg NInf = PInf"
| "fneg NaN = NaN"

definition fsub :: "f32 \<Rightarrow> f32 \<Rightarrow> f32" where
  "fsub a b = fadd a (fneg b)"

fun fsign :: "f32 \<Rightarrow> int" where
  "fsign (Finite a) = (if a < 0 then - 1 else if a = 0 then 0 else 1)"
| "fsign PInf = 1"
| "fsign NInf = - 1"
| "fsign NaN = 0"

definition finf :: "int \<Rightarrow> f32" where
  "finf s = (if s < 0 then NInf else PInf)"

fun fmul :: "f32 \<Rightarrow> f32 \<Rightarrow> f32" where
  "fmul NaN _ = NaN"
| "fmul _ NaN = NaN"
| "fmul (Finite a) (Finite b) = round32 (a * b)"
| "fmul x y = (if fsign x * fsign y = 0 then NaN else finf (fsign x * fsign y))"

fun fdiv :: "f32 \<Rightarrow> f32 \<Rightarrow> f32" where
  "fdiv NaN _ = NaN"
| "fdiv _ NaN = NaN"
| "fdiv (Finite a) (Finite b) =
     (if b = 0 then (if a = 0 then NaN else finf (fsign (Finite a))) else round32 (a / b))"
| "fdiv (Finite a) _ = Finite 0"
| "fdiv x (Finite b) = finf (fsign x * (if b < 0 then - 1 else 1))"
| "fdiv _ _ = NaN"

fun fabsf :: "f32 \<Rightarrow> f32" where
  "fabsf (Finite a) = Finite \<bar>a\<bar>"
| "fabsf PInf = PInf"
| "fabsf NInf = PInf"
| "fabsf NaN = NaN"

text \<open>The comparisons of C: every comparison with a NaN is false.\<close>

fun flt :: "f32 \<Rightarrow> f32 \<Rightarrow> bool" where
  "flt NaN _ = False"
| "flt _ NaN = False"
| "flt (Finite a) (Finite b) = (a < b)"
| "flt _ NInf = False"
| "flt PInf _ = False"
| "flt _ _ = True"

fun fle :: "f32 \<Rightarrow> f32 \<Rightarrow> bool" where
  "fle NaN _ = False"
| "fle _ NaN = False"
| "fle (Finite a) (Finite b) = (a \<le> b)"
| "fle NInf _ = True"
| "fle _ PInf = True"
| "fle _ _ = False"

definition fgt :: "f32 \<Rightarrow> f32 \<Rightarrow> bool" where
  "fgt a b = flt b a"

definition fge :: "f32 \<Rightarrow> f32 \<Rightarrow> bool" where
  "fge a b = fle b a"

text \<open>The conversion of a \<^verbatim>\<open>uint32_t\<close> to \<^verbatim>\<open>float\<close>.\<close>

definition f32_of_u32 :: "32 word \<Rightarrow> f32" where
  "f32_of_u32 w = round32 (of_int (uint w))"

section \<open>Configuration\<close>

text \<open>The \<^verbatim>\<open>#define\<close> constants of the program; a float literal is the rounded decimal.\<close>

definition ADC_SAMPLES :: nat where "ADC_SAMPLES = 64"
definition ADC_VREF :: f32 where "ADC_VREF = round32 (33 / 10)"
definition SM24_SENSITIVITY_V_MS :: f32 where "SM24_SENSITIVITY_V_MS = round32 (288 / 10)"

definition LED_BUILTIN :: nat where "LED_BUILTIN = 25"
definition LED_STATUS :: nat where "LED_STATUS = 15"
definition LED_ALERT :: nat where "LED_ALERT = 14"
definition BUZZER_PIN :: nat where "BUZZER_PIN = 16"
definition BUTTON_PIN :: nat where "BUTTON_PIN = 17"

definition SAMPLE_PERIOD_MS :: "32 word" where "SAMPLE_PERIOD_MS = 10"
definition WINDOW_SIZE :: nat where "WINDOW_SIZE = 256"

text \<open>The float literals of \<^verbatim>\<open>run_inference\<close> and \<^verbatim>\<open>process_inference_result\<close>.\<close>

definition f_0_05 :: f32 where "f_0_05 = round32 (5 / 100)"
definition f_0_02 :: f32 where "f_0_02 = round32 (2 / 100)"
definition f_0_70 :: f32 where "f_0_70 = round32 (70 / 100)"
definition f_0_85 :: f32 where "f_0_85 = round32 (85 / 100)"
definition f_0_95 :: f32 where "f_0_95 = round32 (95 / 100)"
definition f_0_98 :: f32 where "f_0_98 = round32 (98 / 100)"

section \<open>Data structures\<close>

record geophone_sample_t =
  velocity_m_s :: f32
  velocity_mm_s :: f32
  raw_voltage :: f32
  raw_adc :: "32 word"
  sample_timestamp_ms :: "64 word"

record inference_result_t =
  label :: string
  confidence :: f32
  inference_time_ms :: "32 word"
  timestamp_ms :: "64 word"

record sample_buffer_t =
  buffer :: "f32 list"
  index :: "16 word"
  filled :: bool

text \<open>
  What the program does to the outside: the pin writes and the sleeps in the order they
  happen, and the serial messages. The text of a \<^verbatim>\<open>printf\<close> group is reduced to a
  constructor that carries the values printed.
\<close>

datatype serial =
    Event_report string f32 "32 word" "64 word"
  | Critical_banner
  | High_confidence_banner
  | Low_confidence_banner
  | Event_totals "32 word" "32 word" "32 word"
  | System_status bool bool "32 word" "32 word" "32 word" bool
  | Button_message bool

datatype io = Gpio_put nat bool | Sleep_ms int | Printf serial

text \<open>
  The global variables, with the static \<^verbatim>\<open>last_press\<close> of \<^verbatim>\<open>check_button\<close> and
  the trace of outputs produced so far.
\<close>

record globals =
  geophone_buffer :: sample_buffer_t
  total_events :: "32 word"
  high_confidence_events :: "32 word"
  critical_events :: "32 word"
  system_ready :: bool
  alert_silenced :: bool
  last_press :: "32 word"
  out :: "io list"

definition globals_init :: globals where
  "globals_init =
     \<lparr> geophone_buffer = \<lparr> buffer = replicate WINDOW_SIZE (Finite 0), index = 0, filled = False \<rparr>,
       total_events = 0, high_confidence_events = 0, critical_events = 0,
       system_ready = False, alert_silenced = False, last_press = 0, out = [] \<rparr>"

definition emit :: "io list \<Rightarrow> globals \<Rightarrow> globals" where
  "emit es g = g\<lparr>out := out g @ es\<rparr>"

section \<open>LED and buzzer control\<close>

fun pulses :: "nat \<Rightarrow> nat \<Rightarrow> int \<Rightarrow> io list" where
  "pulses pin 0 duration_ms = []"
| "pulses pin (Suc n) duration_ms =
     [Gpio_put pin True, Sleep_ms duration_ms, Gpio_put pin False, Sleep_ms duration_ms]
       @ pulses pin n duration_ms"

definition led_blink :: "nat \<Rightarrow> int \<Rightarrow> int \<Rightarrow> globals \<Rightarrow> globals" where
  "led_blink pin count duration_ms g = emit (pulses pin (nat count) duration_ms) g"

definition buzzer_beep :: "int \<Rightarrow> int \<Rightarrow> globals \<Rightarrow> globals" where
  "buzzer_beep count duration_ms g =
     (if alert_silenced g then g else emit (pulses BUZZER_PIN (nat count) duration_ms) g)"

definition alert_low_confidence :: "globals \<Rightarrow> globals" where
  "alert_low_confidence g = led_blink LED_STATUS 2 200 g"

definition alert_high_confidence :: "globals \<Rightarrow> globals" where
  "alert_high_confidence g = buzzer_beep 3 150 (led_blink LED_ALERT 5 100 g)"

definition alert_critical :: "globals \<Rightarrow> globals" where
  "alert_critical g =
     emit [Gpio_put LED_ALERT True] (buzzer_beep 5 100 (led_blink LED_ALERT 10 50 g))"

section \<open>Data acquisition\<close>

text \<open>\<open>rd i\<close> is what the \<open>i\<close>-th call of \<^verbatim>\<open>adc_read\<close> in this tick returns.\<close>

definition read_adc_averaged :: "(nat \<Rightarrow> 16 word) \<Rightarrow> 32 word" where
  "read_adc_averaged rd = fold (\<lambda>i sum. sum + ucast (rd i)) [0..<ADC_SAMPLES] 0 div 64"

definition adc_to_voltage :: "32 word \<Rightarrow> f32" where
  "adc_to_voltage adc_value = fdiv (fmul (f32_of_u32 adc_value) ADC_VREF) (Finite 4095)"

definition voltage_to_velocity_ms :: "f32 \<Rightarrow> f32" where
  "voltage_to_velocity_ms voltage =
     (let v_center = fdiv ADC_VREF (Finite 2);
          v_signal = fsub voltage v_center
      in fdiv v_signal SM24_SENSITIVITY_V_MS)"

definition acquire_geophone_sample :: "(nat \<Rightarrow> 16 word) \<Rightarrow> 32 word \<Rightarrow> geophone_sample_t" where
  "acquire_geophone_sample rd clock =
     (let adc_raw = read_adc_averaged rd;
          voltage = adc_to_voltage adc_raw;
          v = voltage_to_velocity_ms voltage
      in \<lparr> velocity_m_s = v, velocity_mm_s = fmul v (Finite 1000), raw_voltage = voltage,
           raw_adc = adc_raw, sample_timestamp_ms = ucast clock \<rparr>)"

text \<open>
  The write goes to the slot at the cursor. A cursor outside the array would be undefined
  behaviour in C; \<open>cursor_in_range\<close> below shows that no push leaves one.
\<close>

definition buffer_add_sample :: "f32 \<Rightarrow> globals \<Rightarrow> globals" where
  "buffer_add_sample v g =
     (let b = geophone_buffer g;
          b1 = b\<lparr>buffer := (buffer b)[unat (index b) := v], index := index b + 1\<rparr>;
          b2 = (if WINDOW_SIZE \<le> unat (index b1) then b1\<lparr>index := 0, filled := True\<rparr> else b1)
      in g\<lparr>geophone_buffer := b2\<rparr>)"

section \<open>Placeholder inference\<close>

text \<open>
  \<open>start_time\<close> and \<open>end_time\<close> are the two clock reads. The result structure is passed
  in and returned, so a field the function does not assign keeps what it held.
\<close>

definition avg_amplitude :: "f32 list \<Rightarrow> f32" where
  "avg_amplitude buf =
     fdiv (fold (\<lambda>i acc. fadd acc (fabsf (buf ! i))) [0..<WINDOW_SIZE] (Finite 0)) (Finite 256)"

definition run_inference ::
  "globals \<Rightarrow> 32 word \<Rightarrow> 32 word \<Rightarrow> inference_result_t \<Rightarrow> inference_result_t" where
  "run_inference g start_time end_time result =
     (if \<not> filled (geophone_buffer g)
      then result\<lparr>label := ''insufficient_data'', confidence := Finite 0, inference_time_ms := 0\<rparr>
      else
        let avg = avg_amplitude (buffer (geophone_buffer g));
            r1 = (if fgt avg f_0_05 then
                    let c = fadd f_0_85 (fmul avg (Finite 2))
                    in result\<lparr>label := ''earthquake'',
                              confidence := (if fgt c (Finite 1) then f_0_98 else c)\<rparr>
                  else if fgt avg f_0_02 then
                    let c = fadd f_0_70 (fmul avg (Finite 5))
                    in result\<lparr>label := ''tremor'',
                              confidence := (if fgt c (Finite 1) then f_0_85 else c)\<rparr>
                  else result\<lparr>label := ''noise'', confidence := f_0_95\<rparr>)
        in r1\<lparr>inference_time_ms := end_time - start_time, timestamp_ms := ucast end_time\<rparr>)"

section \<open>Event processing\<close>

definition process_inference_result :: "inference_result_t \<Rightarrow> globals \<Rightarrow> globals" where
  "process_inference_result result g =
     (if label result = ''noise'' then g
      else
        let g1 = emit [Printf (Event_report (label result) (confidence result)
                                 (inference_time_ms result) (timestamp_ms result))] g;
            g2 = g1\<lparr>total_events := total_events g1 + 1\<rparr>;
            g3 = (if fge (confidence result) f_0_95 then
                    let a = alert_critical (emit [Printf Critical_banner] g2)
                    in a\<lparr>critical_events := critical_events a + 1\<rparr>
                  else if fge (confidence result) f_0_85 then
                    let a = alert_high_confidence (emit [Printf High_confidence_banner] g2)
                    in a\<lparr>high_confidence_events := high_confidence_events a + 1\<rparr>
                  else alert_low_confidence (emit [Printf Low_confidence_banner] g2))
        in emit [Printf (Event_totals (total_events g3) (high_confidence_events g3)
                           (critical_events g3))] g3)"

section \<open>Status and button\<close>

definition print_system_status :: "globals \<Rightarrow> globals" where
  "print_system_status g =
     emit [Printf (System_status (system_ready g) (filled (geophone_buffer g)) (total_events g)
                     (high_confidence_events g) (critical_events g) (alert_silenced g))] g"

text \<open>\<open>level\<close> is what \<^verbatim>\<open>gpio_get(BUTTON_PIN)\<close> returns; the button pulls the pin low.\<close>

definition check_button :: "bool \<Rightarrow> 32 word \<Rightarrow> globals \<Rightarrow> globals" where
  "check_button level now g =
     (if \<not> level \<and> 500 < now - last_press g then
        let g1 = g\<lparr>alert_silenced := \<not> alert_silenced g\<rparr>;
            g2 = emit [Gpio_put LED_ALERT False, Printf (Button_message (alert_silenced g1))] g1;
            g3 = led_blink LED_BUILTIN (if alert_silenced g2 then 1 else 3) 100 g2
        in g3\<lparr>last_press := now\<rparr>
      else g)"

section \<open>Main loop\<close>

text \<open>The local variables of \<^verbatim>\<open>main\<close> that live across iterations.\<close>

record main_locals =
  last_sample_time :: "32 word"
  last_inference_time :: "32 word"
  last_status_time :: "32 word"
  heartbeat_counter :: "32 word"
  current_sample :: geophone_sample_t
  inference :: inference_result_t

text \<open>What one iteration reads from the hardware: the clock at each read, the ADC, the button.\<close>

record tick_input =
  clock_now :: "32 word"
  adc :: "nat \<Rightarrow> 16 word"
  clock_sample :: "32 word"
  clock_inference_start :: "32 word"
  clock_inference_end :: "32 word"
  button_level :: bool
  clock_button :: "32 word"

type_synonym system = "main_locals \<times> globals"

definition acquisition_due :: "32 word \<Rightarrow> main_locals \<Rightarrow> bool" where
  "acquisition_due now l = (SAMPLE_PERIOD_MS \<le> now - last_sample_time l)"

definition acquisition_step :: "tick_input \<Rightarrow> system \<Rightarrow> system" where
  "acquisition_step i = (\<lambda>(l, g).
     if acquisition_due (clock_now i) l then
       let s = acquire_geophone_sample (adc i) (clock_sample i)
       in (l\<lparr>current_sample := s, last_sample_time := clock_now i\<rparr>,
           buffer_add_sample (velocity_m_s s) g)
     else (l, g))"

definition classification_due :: "32 word \<Rightarrow> system \<Rightarrow> bool" where
  "classification_due now = (\<lambda>(l, g).
     filled (geophone_buffer g) \<and> 2560 \<le> now - last_inference_time l)"

definition classification_step :: "tick_input \<Rightarrow> system \<Rightarrow> system" where
  "classification_step i = (\<lambda>(l, g).
     if classification_due (clock_now i) (l, g) then
       let r = run_inference g (clock_inference_start i) (clock_inference_end i) (inference l)
       in (l\<lparr>inference := r, last_inference_time := clock_now i\<rparr>,
           process_inference_result r g)
     else (l, g))"

definition status_due :: "32 word \<Rightarrow> main_locals \<Rightarrow> bool" where
  "status_due now l = (30000 \<le> now - last_status_time l)"

definition status_step :: "tick_input \<Rightarrow> system \<Rightarrow> system" where
  "status_step i = (\<lambda>(l, g).
     if status_due (clock_now i) l
     then (l\<lparr>last_status_time := clock_now i\<rparr>, print_system_status g)
     else (l, g))"

definition heartbeat_step :: "system \<Rightarrow> system" where
  "heartbeat_step = (\<lambda>(l, g).
     let g1 = (if unat (heartbeat_counter l) mod 1000 = 0
               then emit [Gpio_put LED_BUILTIN True] g else g);
         g2 = (if unat (heartbeat_counter l) mod 1000 = 100
               then emit [Gpio_put LED_BUILTIN False] g1 else g1)
     in (l\<lparr>heartbeat_counter := heartbeat_counter l + 1\<rparr>, g2))"

definition button_step :: "tick_input \<Rightarrow> system \<Rightarrow> system" where
  "button_step i = (\<lambda>(l, g). (l, check_button (button_level i) (clock_button i) g))"

definition idle_step :: "system \<Rightarrow> system" where
  "idle_step = (\<lambda>(l, g). (l, emit [Sleep_ms 1] g))"

text \<open>One pass through the body of \<^verbatim>\<open>while (1)\<close>, in the order of the source.\<close>

definition main_iteration :: "tick_input \<Rightarrow> system \<Rightarrow> system" where
  "main_iteration i s =
     idle_step (button_step i (heartbeat_step (status_step i
       (classification_step i (acquisition_step i s)))))"

text \<open>The loop never ends; a run is the iterations for a finite sequence of inputs.\<close>

fun main_loop :: "tick_input list \<Rightarrow> system \<Rightarrow> system" where
  "main_loop [] s = s"
| "main_loop (i # is) s = main_loop is (main_iteration i s)"

text \<open>Pushing a sequence of values, oldest first.\<close>

fun push_all :: "f32 list \<Rightarrow> globals \<Rightarrow> globals" where
  "push_all [] g = g"
| "push_all (v # vs) g = push_all vs (buffer_add_sample v g)"

section \<open>The window as a sequence\<close>

text \<open>
  A window is well formed when the array has its \<open>WINDOW_SIZE\<close> slots and the cursor is
  inside it. \<open>chronological\<close> reads the array from the cursor to the end and then from
  slot 0 up to the cursor; \<open>window_read\<close> is the sequence \<^verbatim>\<open>run_inference\<close> reads,
  slot 0 first.
\<close>

definition window_ok :: "sample_buffer_t \<Rightarrow> bool" where
  "window_ok b = (length (buffer b) = WINDOW_SIZE \<and> unat (index b) < WINDOW_SIZE)"

definition chronological :: "sample_buffer_t \<Rightarrow> f32 list" where
  "chronological b = drop (unat (index b)) (buffer b) @ take (unat (index b)) (buffer b)"

definition window_read :: "globals \<Rightarrow> f32 list" where
  "window_read g = map (\<lambda>i. buffer (geophone_buffer g) ! i) [0..<WINDOW_SIZE]"

section \<open>Example inputs\<close>

definition ramp :: "f32 list" where
  "ramp = map (\<lambda>n. Finite (of_nat n)) [0..<257]"

definition g_wrap :: globals where
  "g_wrap = globals_init\<lparr>geophone_buffer :=
     \<lparr> buffer = replicate WINDOW_SIZE (Finite 1), index = 255, filled = True \<rparr>\<rparr>"

definition r_elevated :: inference_result_t where
  "r_elevated = \<lparr> label = ''earthquake'', confidence = f_0_85, inference_time_ms = 0, timestamp_ms = 0 \<rparr>"

definition r_at_0_95 :: inference_result_t where
  "r_at_0_95 = \<lparr> label = ''tremor'', confidence = f_0_95, inference_time_ms = 2, timestamp_ms = 2560 \<rparr>"

definition r_at_0_9499 :: inference_result_t where
  "r_at_0_9499 = \<lparr> label = ''earthquake'', confidence = round32 (9499 / 10000),
                    inference_time_ms = 2, timestamp_ms = 5120 \<rparr>"

definition r_advisory :: inference_result_t where
  "r_advisory = \<lparr> label = ''tremor'', confidence = f_0_70, inference_time_ms = 2, timestamp_ms = 7680 \<rparr>"

definition r_critical :: inference_result_t where
  "r_critical = \<lparr> label = ''earthquake'', confidence = f_0_98, inference_time_ms = 3, timestamp_ms = 5000 \<rparr>"

definition r_quiet :: inference_result_t where
  "r_quiet = \<lparr> label = ''noise'', confidence = f_0_95, inference_time_ms = 1, timestamp_ms = 2560 \<rparr>"

section \<open>Counting outputs\<close>

text \<open>The number of button messages and of status reports in the output so far.\<close>

fun is_button_message :: "io \<Rightarrow> bool" where
  "is_button_message (Printf (Button_message b)) = True"
| "is_button_message _ = False"

definition toggles :: "globals \<Rightarrow> nat" where
  "toggles g = length (filter is_button_message (out g))"

fun is_status_message :: "io \<Rightarrow> bool" where
  "is_status_message (Printf (System_status r f t h c s)) = True"
| "is_status_message _ = False"

definition status_reports :: "globals \<Rightarrow> nat" where
  "status_reports g = length (filter is_status_message (out g))"

section \<open>Example loop states and inputs\<close>

definition sample_0 :: geophone_sample_t where
  "sample_0 = \<lparr> velocity_m_s = Finite 0, velocity_mm_s = Finite 0, raw_voltage = Finite 0,
                 raw_adc = 0, sample_timestamp_ms = 0 \<rparr>"

definition locals_0 :: main_locals where
  "locals_0 = \<lparr> last_sample_time = 0, last_inference_time = 0, last_status_time = 0,
                 heartbeat_counter = 0, current_sample = sample_0, inference = r_quiet \<rparr>"

definition tick_a :: tick_input where
  "tick_a = \<lparr> clock_now = 90000, adc = (\<lambda>k. 2048), clock_sample = 90000,
               clock_inference_start = 90000, clock_inference_end = 90001,
               button_level = True, clock_button = 90001 \<rparr>"

definition tick_b :: tick_input where
  "tick_b = \<lparr> clock_now = 90005, adc = (\<lambda>k. 2048), clock_sample = 90005,
               clock_inference_start = 90005, clock_inference_end = 90006,
               button_level = True, clock_button = 90006 \<rparr>"

definition f_0_08 :: f32 where "f_0_08 = round32 (8 / 100)"

definition uniform_window :: "f32 list" where
  "uniform_window = replicate WINDOW_SIZE (Finite (9 / 128))"

definition g_uniform :: globals where
  "g_uniform = globals_init\<lparr>geophone_buffer :=
     \<lparr> buffer = uniform_window, index = 0, filled = True \<rparr>\<rparr>"

definition spike_window :: "f32 list" where
  "spike_window = Finite (5368709 / 262144) # replicate 255 (Finite 0)"

definition g_spike :: globals where
  "g_spike = globals_init\<lparr>geophone_buffer :=
     \<lparr> buffer = spike_window, index = 0, filled = True \<rparr>\<rparr>"

definition tick_overrange :: tick_input where
  "tick_overrange = tick_a\<lparr>adc := (\<lambda>k. 65535)\<rparr>"

section \<open>Facts about rounding\<close>

lemma pow2_powi: "pow2 e = 2 powi e"
  by (simp add: pow2_def power_int_def inverse_eq_divide power_one_over)

lemma pow2_pos: "0 < pow2 e"
  by (simp add: pow2_powi)

lemma pow2_mono: "a \<le> b \<Longrightarrow> pow2 a \<le> pow2 b"
  unfolding pow2_powi by (intro power_int_increasing) simp_all

lemma binade_eq:
  "pow2 e \<le> a \<Longrightarrow> a < pow2 (e + 1) \<Longrightarrow> - 126 \<le> e \<Longrightarrow> e \<le> int n - 126 \<Longrightarrow> binade n a = e"
proof (induction n)
  case 0
  then show ?case by simp
next
  case (Suc k)
  show ?case
  proof (cases "e = int k - 125")
    case True
    then show ?thesis using Suc.prems(1) by simp
  next
    case False
    then have le: "e + 1 \<le> int k - 125" using Suc.prems(4) by simp
    have "a < pow2 (int k - 125)"
      using Suc.prems(2) pow2_mono [OF le] by simp
    then show ?thesis
      using Suc.IH Suc.prems le by simp
  qed
qed

lemma round32_normal:
  assumes "pow2 e \<le> x" and "x < pow2 (e + 1)" and "- 126 \<le> e" and "e \<le> 127"
  shows "round32 x =
     (if pow2 128 \<le> of_int (round_half_even (x / pow2 (e - 23))) * pow2 (e - 23) then PInf
      else Finite (of_int (round_half_even (x / pow2 (e - 23))) * pow2 (e - 23)))"
proof -
  have pos: "0 < x" using assms(1) pow2_pos [of e] by simp
  have b: "binade 253 x = e"
    using assms by (intro binade_eq) simp_all
  show ?thesis
    using pos by (simp add: round32_def Let_def b)
qed

lemma pow2_add: "pow2 (a + b) = pow2 a * pow2 b"
  by (simp add: pow2_powi power_int_add)

lemma pow2_nat: "0 \<le> e \<Longrightarrow> pow2 e = 2 ^ nat e"
  by (simp add: pow2_def)

lemma pow2_between: "pow2 a \<le> x \<Longrightarrow> x < pow2 b \<Longrightarrow> a < b"
proof (rule ccontr)
  assume h: "pow2 a \<le> x" "x < pow2 b" and "\<not> a < b"
  then have "b \<le> a" by simp
  then have "pow2 b \<le> pow2 a"
    unfolding pow2_powi by (intro power_int_increasing) simp_all
  then show False using h by simp
qed

lemma binade_low: "binade n a = - 126 \<or> pow2 (binade n a) \<le> a"
  by (induction n) simp_all

lemma round_half_even_int: "round_half_even (of_int z) = z"
  by (simp add: round_half_even_def)

lemma round_half_even_nonneg: "0 \<le> q \<Longrightarrow> 0 \<le> round_half_even q"
  by (simp add: round_half_even_def Let_def)

lemma round32_exact:
  assumes "0 < n" and "n < 2 ^ 24" and "- 149 \<le> e" and "e \<le> 104"
  shows "round32 (of_int n * pow2 e) = Finite (of_int n * pow2 e)"
proof -
  define a :: rat where "a = of_int n * pow2 e"
  define b where "b = binade 253 a"
  define u where "u = pow2 (b - 23)"
  have pos: "0 < a" using assms(1) pow2_pos [of e] by (simp add: a_def)
  have upos: "0 < u" by (simp add: u_def pow2_pos)
  have "(of_int n :: rat) < 2 ^ 24"
    using assms(2) by (metis of_int_less_iff of_int_numeral of_int_power)
  then have "a < 2 ^ 24 * pow2 e"
    using pow2_pos [of e] by (simp add: a_def)
  also have "\<dots> = pow2 (24 + e)"
    unfolding pow2_add by (simp add: pow2_def)
  finally have up: "a < pow2 (24 + e)" .
  have le: "b \<le> e + 23"
    using binade_low [of 253 a] pow2_between [OF _ up, of b] assms(3) by (auto simp: b_def)
  define k where "k = nat (e + 23 - b)"
  have "pow2 e = pow2 ((e + 23 - b) + (b - 23))" by simp
  also have "\<dots> = pow2 (e + 23 - b) * u"
    unfolding u_def by (rule pow2_add)
  also have "pow2 (e + 23 - b) = 2 ^ k"
    using le by (simp add: pow2_nat k_def)
  finally have a_eq: "a = of_int (n * 2 ^ k) * u"
    by (simp add: a_def)
  have "a / u = of_int (n * 2 ^ k)"
    using upos unfolding a_eq by simp
  then have r: "round_half_even (a / u) = n * 2 ^ k"
    by (simp only: round_half_even_int)
  have "pow2 (24 + e) \<le> pow2 128"
    unfolding pow2_powi using assms(4) by (intro power_int_increasing) simp_all
  then have lt: "\<not> pow2 128 \<le> a" using up by simp
  have "round32 a = Finite a"
    unfolding round32_def Let_def abs_of_pos [OF pos] b_def [symmetric] u_def [symmetric] r
      a_eq [symmetric]
    using pos lt by simp
  then show ?thesis by (simp only: a_def)
qed

lemma round32_nonneg: "0 \<le> x \<Longrightarrow> fle (Finite 0) (round32 x)"
proof -
  assume x: "0 \<le> x"
  have "0 \<le> of_int (round_half_even (\<bar>x\<bar> / pow2 (binade 253 \<bar>x\<bar> - 23)))
            * pow2 (binade 253 \<bar>x\<bar> - 23)"
    using pow2_pos [of "binade 253 \<bar>x\<bar> - 23"]
    by (intro mult_nonneg_nonneg) (simp_all add: round_half_even_nonneg)
  then show ?thesis
    using x by (simp add: round32_def Let_def)
qed

section \<open>Constants and field lemmas\<close>

lemma floor_rat_numeral: "\<lfloor>numeral a / numeral b :: rat\<rfloor> = numeral a div numeral b"
  using floor_divide_of_int_eq [of "numeral a" "numeral b", where ?'a = rat] by simp

lemmas round32_eval = pow2_def round_half_even_def Let_def floor_rat_numeral

lemma f_0_85_value: "f_0_85 = Finite (14260634 / 16777216)"
  unfolding f_0_85_def
  by (subst round32_normal [of "- 1"]) (simp_all add: round32_eval)

lemma f_0_95_value: "f_0_95 = Finite (15938355 / 16777216)"
  unfolding f_0_95_def
  by (subst round32_normal [of "- 1"]) (simp_all add: round32_eval)

lemma f_0_98_value: "f_0_98 = Finite (16441672 / 16777216)"
  unfolding f_0_98_def
  by (subst round32_normal [of "- 1"]) (simp_all add: round32_eval)

lemma f_0_05_value: "f_0_05 = Finite (13421773 / 268435456)"
  unfolding f_0_05_def
  by (subst round32_normal [of "- 5"]) (simp_all add: round32_eval)

lemma f_0_02_value: "f_0_02 = Finite (5368709 / 268435456)"
  unfolding f_0_02_def
  by (subst round32_normal [of "- 6"]) (simp_all add: round32_eval)

lemma f_0_70_value: "f_0_70 = Finite (11744051 / 16777216)"
  unfolding f_0_70_def
  by (subst round32_normal [of "- 1"]) (simp_all add: round32_eval)

lemma f_0_9499_value: "round32 (9499 / 10000) = Finite (15936677 / 16777216)"
  by (subst round32_normal [of "- 1"]) (simp_all add: round32_eval)

lemma ADC_VREF_value: "ADC_VREF = Finite (13841203 / 4194304)"
  unfolding ADC_VREF_def
  by (subst round32_normal [of 1]) (simp_all add: round32_eval)

lemma SENSITIVITY_value: "SM24_SENSITIVITY_V_MS = Finite (15099494 / 524288)"
  unfolding SM24_SENSITIVITY_V_MS_def
  by (subst round32_normal [of 4]) (simp_all add: round32_eval)

lemma emit_fields [simp]:
  "total_events (emit es g) = total_events g"
  "high_confidence_events (emit es g) = high_confidence_events g"
  "critical_events (emit es g) = critical_events g"
  "alert_silenced (emit es g) = alert_silenced g"
  "geophone_buffer (emit es g) = geophone_buffer g"
  "last_press (emit es g) = last_press g"
  "system_ready (emit es g) = system_ready g"
  "out (emit es g) = out g @ es"
  by (simp_all add: emit_def)

lemma globals_init_fields [simp]:
  "total_events globals_init = 0"
  "high_confidence_events globals_init = 0"
  "critical_events globals_init = 0"
  "alert_silenced globals_init = False"
  "last_press globals_init = 0"
  "out globals_init = []"
  "filled (geophone_buffer globals_init) = False"
  "index (geophone_buffer globals_init) = 0"
  "buffer (geophone_buffer globals_init) = replicate WINDOW_SIZE (Finite 0)"
  by (simp_all add: globals_init_def)

lemma led_blink_fields [simp]:
  "total_events (led_blink p c d g) = total_events g"
  "high_confidence_events (led_blink p c d g) = high_confidence_events g"
  "critical_events (led_blink p c d g) = critical_events g"
  "alert_silenced (led_blink p c d g) = alert_silenced g"
  "geophone_buffer (led_blink p c d g) = geophone_buffer g"
  "last_press (led_blink p c d g) = last_press g"
  "out (led_blink p c d g) = out g @ pulses p (nat c) d"
  by (simp_all add: led_blink_def)

lemma buzzer_beep_fields [simp]:
  "total_events (buzzer_beep c d g) = total_events g"
  "high_confidence_events (buzzer_beep c d g) = high_confidence_events g"
  "critical_events (buzzer_beep c d g) = critical_events g"
  "alert_silenced (buzzer_beep c d g) = alert_silenced g"
  "geophone_buffer (buzzer_beep c d g) = geophone_buffer g"
  "last_press (buzzer_beep c d g) = last_press g"
  "out (buzzer_beep c d g) = out g @ (if alert_silenced g then [] else pulses BUZZER_PIN (nat c) d)"
  by (simp_all add: buzzer_beep_def)

lemma counters_after_processing:
  assumes "label r \<noteq> ''noise''"
  shows "total_events (process_inference_result r g) = total_events g + 1"
    and "critical_events (process_inference_result r g) =
           (if fge (confidence r) f_0_95 then critical_events g + 1 else critical_events g)"
    and "high_confidence_events (process_inference_result r g) =
           (if \<not> fge (confidence r) f_0_95 \<and> fge (confidence r) f_0_85
            then high_confidence_events g + 1 else high_confidence_events g)"
  using assms
  by (simp_all add: process_inference_result_def Let_def alert_critical_def
        alert_high_confidence_def alert_low_confidence_def)

lemma flt_not_fge: "flt a b \<Longrightarrow> \<not> fge a b"
  by (cases a; cases b) (simp_all add: fge_def)

lemma fge_below: "flt a f_0_85 \<Longrightarrow> \<not> fge a f_0_95"
  by (cases a) (simp_all add: fge_def f_0_85_value f_0_95_value)


text \<open>
  Claim C1. For a result that is not noise the total always increments, and the tier is
  chosen with \<open>\<ge>\<close> at both thresholds: a confidence of exactly 0.85 increments
  \<open>high_confidence_events\<close> only, exactly 0.95 increments \<open>critical_events\<close> only, 0.9499
  is elevated, and a confidence below 0.85 increments neither.
\<close>

theorem tier_selection:
  assumes "label r \<noteq> ''noise''"
  shows "total_events (process_inference_result r g) = total_events g + 1
    \<and> critical_events (process_inference_result r g) =
        (if fge (confidence r) f_0_95 then critical_events g + 1 else critical_events g)
    \<and> high_confidence_events (process_inference_result r g) =
        (if fge (confidence r) f_0_85 \<and> \<not> fge (confidence r) f_0_95
         then high_confidence_events g + 1 else high_confidence_events g)
    \<and> (confidence r = f_0_85 \<longrightarrow>
          high_confidence_events (process_inference_result r g) = high_confidence_events g + 1
          \<and> critical_events (process_inference_result r g) = critical_events g)
    \<and> (confidence r = f_0_95 \<longrightarrow>
          critical_events (process_inference_result r g) = critical_events g + 1
          \<and> high_confidence_events (process_inference_result r g) = high_confidence_events g)
    \<and> (confidence r = round32 (9499 / 10000) \<longrightarrow>
          high_confidence_events (process_inference_result r g) = high_confidence_events g + 1
          \<and> critical_events (process_inference_result r g) = critical_events g)
    \<and> (flt (confidence r) f_0_85 \<longrightarrow>
          high_confidence_events (process_inference_result r g) = high_confidence_events g
          \<and> critical_events (process_inference_result r g) = critical_events g)"
proof -
  have b1: "fge f_0_95 f_0_95" "fge f_0_85 f_0_85" "\<not> fge f_0_85 f_0_95"
    by (simp_all add: fge_def f_0_85_value f_0_95_value)
  have b2: "fge (round32 (9499 / 10000)) f_0_85" "\<not> fge (round32 (9499 / 10000)) f_0_95"
    by (simp_all add: fge_def f_0_85_value f_0_95_value f_0_9499_value)
  show ?thesis
    using counters_after_processing [OF assms, of g] b1 b2
    by (auto simp: flt_not_fge fge_below)
qed

theorem tier_selection_witness:
  "label r_elevated \<noteq> ''noise'' \<and> confidence r_elevated = f_0_85
   \<and> total_events (process_inference_result r_elevated globals_init) = 1
   \<and> high_confidence_events (process_inference_result r_elevated globals_init) = 1
   \<and> critical_events (process_inference_result r_elevated globals_init) = 0
   \<and> label r_at_0_95 \<noteq> ''noise'' \<and> confidence r_at_0_95 = f_0_95
   \<and> high_confidence_events (process_inference_result r_at_0_95 globals_init) = 0
   \<and> critical_events (process_inference_result r_at_0_95 globals_init) = 1
   \<and> label r_at_0_9499 \<noteq> ''noise'' \<and> confidence r_at_0_9499 = round32 (9499 / 10000)
   \<and> high_confidence_events (process_inference_result r_at_0_9499 globals_init) = 1
   \<and> critical_events (process_inference_result r_at_0_9499 globals_init) = 0
   \<and> label r_advisory \<noteq> ''noise'' \<and> flt (confidence r_advisory) f_0_85
   \<and> total_events (process_inference_result r_advisory globals_init) = 1
   \<and> high_confidence_events (process_inference_result r_advisory globals_init) = 0
   \<and> critical_events (process_inference_result r_advisory globals_init) = 0"
proof -
  have h1: "label r_elevated \<noteq> ''noise''" and c1: "confidence r_elevated = f_0_85"
    by (simp_all add: r_elevated_def)
  have h2: "label r_at_0_95 \<noteq> ''noise''" and c2: "confidence r_at_0_95 = f_0_95"
    by (simp_all add: r_at_0_95_def)
  have h3: "label r_at_0_9499 \<noteq> ''noise''"
    and c3: "confidence r_at_0_9499 = round32 (9499 / 10000)"
    by (simp_all add: r_at_0_9499_def)
  have h4: "label r_advisory \<noteq> ''noise''" and c4: "flt (confidence r_advisory) f_0_85"
    by (simp_all add: r_advisory_def f_0_70_value f_0_85_value)
  have t1: "total_events (process_inference_result r_elevated globals_init)
        = total_events globals_init + 1"
    and e1: "confidence r_elevated = f_0_85 \<longrightarrow>
      high_confidence_events (process_inference_result r_elevated globals_init)
        = high_confidence_events globals_init + 1
      \<and> critical_events (process_inference_result r_elevated globals_init)
        = critical_events globals_init"
    using tier_selection [OF h1, of globals_init] by blast+
  have w1: "total_events (process_inference_result r_elevated globals_init) = 1
      \<and> high_confidence_events (process_inference_result r_elevated globals_init) = 1
      \<and> critical_events (process_inference_result r_elevated globals_init) = 0"
    using t1 e1 c1 by simp
  have e2: "confidence r_at_0_95 = f_0_95 \<longrightarrow>
      critical_events (process_inference_result r_at_0_95 globals_init)
        = critical_events globals_init + 1
      \<and> high_confidence_events (process_inference_result r_at_0_95 globals_init)
        = high_confidence_events globals_init"
    using tier_selection [OF h2, of globals_init] by blast
  have w2: "high_confidence_events (process_inference_result r_at_0_95 globals_init) = 0
      \<and> critical_events (process_inference_result r_at_0_95 globals_init) = 1"
    using e2 c2 by simp
  have e3: "confidence r_at_0_9499 = round32 (9499 / 10000) \<longrightarrow>
      high_confidence_events (process_inference_result r_at_0_9499 globals_init)
        = high_confidence_events globals_init + 1
      \<and> critical_events (process_inference_result r_at_0_9499 globals_init)
        = critical_events globals_init"
    using tier_selection [OF h3, of globals_init] by blast
  have w3: "high_confidence_events (process_inference_result r_at_0_9499 globals_init) = 1
      \<and> critical_events (process_inference_result r_at_0_9499 globals_init) = 0"
    using e3 c3 by simp
  have t4: "total_events (process_inference_result r_advisory globals_init)
        = total_events globals_init + 1"
    and e4: "flt (confidence r_advisory) f_0_85 \<longrightarrow>
      high_confidence_events (process_inference_result r_advisory globals_init)
        = high_confidence_events globals_init
      \<and> critical_events (process_inference_result r_advisory globals_init)
        = critical_events globals_init"
    using tier_selection [OF h4, of globals_init] by blast+
  have w4: "total_events (process_inference_result r_advisory globals_init) = 1
      \<and> high_confidence_events (process_inference_result r_advisory globals_init) = 0
      \<and> critical_events (process_inference_result r_advisory globals_init) = 0"
    using t4 e4 c4 by simp
  show ?thesis using h1 c1 w1 h2 c2 w2 h3 c3 w3 h4 c4 w4 by blast
qed







text \<open>
  Claim C7. A result labelled noise leaves the whole state as it was: the three counters
  are unchanged and nothing is output (no LED blink, no buzzer, no latch, no message).
\<close>

theorem noise_discarded:
  assumes "label r = ''noise''"
  shows "process_inference_result r g = g"
  using assms by (simp add: process_inference_result_def)

theorem noise_discarded_witness:
  "label r_quiet = ''noise'' \<and> process_inference_result r_quiet globals_init = globals_init"
proof -
  have h: "label r_quiet = ''noise''" by (simp add: r_quiet_def)
  show ?thesis using h noise_discarded [OF h] by simp
qed

section \<open>The rolling window\<close>

lemma index_less: "unat (w :: 16 word) < 65536"
  using unsigned_less [of w, where 'a = nat] by simp

lemma push_index:
  "unat (index (geophone_buffer (buffer_add_sample v g))) =
     (if unat (index (geophone_buffer g)) < 255 then unat (index (geophone_buffer g)) + 1 else 0)"
proof -
  have "unat (index (geophone_buffer g)) < 65535 \<or> unat (index (geophone_buffer g)) = 65535"
    using index_less [of "index (geophone_buffer g)"] by arith
  then show ?thesis
    by (auto simp: buffer_add_sample_def Let_def WINDOW_SIZE_def unat_word_ariths)
qed

lemma push_filled:
  "filled (geophone_buffer (buffer_add_sample v g)) =
     (filled (geophone_buffer g)
      \<or> (255 \<le> unat (index (geophone_buffer g)) \<and> unat (index (geophone_buffer g)) < 65535))"
proof -
  have "unat (index (geophone_buffer g)) < 65535 \<or> unat (index (geophone_buffer g)) = 65535"
    using index_less [of "index (geophone_buffer g)"] by arith
  then show ?thesis
    by (auto simp: buffer_add_sample_def Let_def WINDOW_SIZE_def unat_word_ariths)
qed

lemma push_buffer:
  "buffer (geophone_buffer (buffer_add_sample v g)) =
     (buffer (geophone_buffer g))[unat (index (geophone_buffer g)) := v]"
  by (simp add: buffer_add_sample_def Let_def)

lemma push_ok: "window_ok (geophone_buffer g) \<Longrightarrow> window_ok (geophone_buffer (buffer_add_sample v g))"
  by (simp add: window_ok_def push_index push_buffer WINDOW_SIZE_def)

lemma push_chronological:
  assumes "window_ok (geophone_buffer g)"
  shows "chronological (geophone_buffer (buffer_add_sample v g)) =
           tl (chronological (geophone_buffer g)) @ [v]"
proof -
  let ?b = "buffer (geophone_buffer g)" and ?i = "unat (index (geophone_buffer g))"
  have len: "length ?b = 256" and i: "?i < 256"
    using assms by (simp_all add: window_ok_def WINDOW_SIZE_def)
  have d: "drop ?i ?b = ?b ! ?i # drop (Suc ?i) ?b"
    using len i by (simp add: Cons_nth_drop_Suc)
  show ?thesis
  proof (cases "?i < 255")
    case True
    then show ?thesis
      using len i d
      by (simp add: chronological_def push_index push_buffer take_Suc_conv_app_nth)
  next
    case False
    then have e: "?i = 255" using i by simp
    have "?b[255 := v] = take 255 ?b @ [v]"
      using len by (simp add: upd_conv_take_nth_drop)
    then show ?thesis
      using len d e by (simp add: chronological_def push_index push_buffer)
  qed
qed

lemma push_all_ok: "window_ok (geophone_buffer g) \<Longrightarrow> window_ok (geophone_buffer (push_all vs g))"
  by (induction vs arbitrary: g) (simp_all add: push_ok)

lemma chronological_length: "window_ok b \<Longrightarrow> length (chronological b) = WINDOW_SIZE"
  by (auto simp: window_ok_def chronological_def)

lemma push_all_chronological:
  "window_ok (geophone_buffer g) \<Longrightarrow>
     chronological (geophone_buffer (push_all vs g)) =
       drop (length vs) (chronological (geophone_buffer g) @ vs)"
proof (induction vs arbitrary: g)
  case Nil
  then show ?case by simp
next
  case (Cons v vs)
  have l: "length (chronological (geophone_buffer g)) = 256"
    using chronological_length [OF Cons.prems] by (simp add: WINDOW_SIZE_def)
  then obtain x xs where c: "chronological (geophone_buffer g) = x # xs"
    by (cases "chronological (geophone_buffer g)") auto
  show ?case
    using Cons.IH [OF push_ok [OF Cons.prems, of v]]
    by (simp add: push_chronological [OF Cons.prems] c)
qed

lemma push_all_index:
  "window_ok (geophone_buffer g) \<Longrightarrow>
     unat (index (geophone_buffer (push_all vs g))) =
       (unat (index (geophone_buffer g)) + length vs) mod WINDOW_SIZE"
proof (induction vs arbitrary: g)
  case Nil
  then show ?case by (simp add: window_ok_def)
next
  case (Cons v vs)
  have i: "unat (index (geophone_buffer g)) < 256"
    using Cons.prems by (simp add: window_ok_def WINDOW_SIZE_def)
  show ?case
  proof (cases "unat (index (geophone_buffer g)) < 255")
    case True
    then show ?thesis
      using Cons.IH [OF push_ok [OF Cons.prems, of v]] by (simp add: push_index)
  next
    case False
    then have "unat (index (geophone_buffer g)) = 255" using i by simp
    then show ?thesis
      using Cons.IH [OF push_ok [OF Cons.prems, of v]]
      by (simp add: push_index WINDOW_SIZE_def)
  qed
qed

lemma push_all_filled:
  "window_ok (geophone_buffer g) \<Longrightarrow>
     filled (geophone_buffer (push_all vs g)) =
       (filled (geophone_buffer g) \<or> WINDOW_SIZE \<le> unat (index (geophone_buffer g)) + length vs)"
proof (induction vs arbitrary: g)
  case Nil
  then show ?case by (simp add: window_ok_def)
next
  case (Cons v vs)
  have i: "unat (index (geophone_buffer g)) < 256"
    using Cons.prems by (simp add: window_ok_def WINDOW_SIZE_def)
  show ?case
    using Cons.IH [OF push_ok [OF Cons.prems, of v]] i
    by (auto simp: push_index push_filled WINDOW_SIZE_def)
qed


lemma window_ok_init: "window_ok (geophone_buffer globals_init)"
  by (simp add: window_ok_def globals_init_def WINDOW_SIZE_def)

lemma window_read_buffer:
  "window_ok (geophone_buffer g) \<Longrightarrow> window_read g = buffer (geophone_buffer g)"
  unfolding window_read_def window_ok_def
  by (metis map_nth)

lemma avg_amplitude_window_read:
  "avg_amplitude (buffer (geophone_buffer g)) =
     fdiv (fold (\<lambda>x acc. fadd acc (fabsf x)) (window_read g) (Finite 0)) (Finite 256)"
  by (simp add: avg_amplitude_def window_read_def fold_map comp_def)

text \<open>
  Claim C6. After every push the cursor is below \<open>WINDOW_SIZE\<close>, and a filled window
  stays filled. In a well-formed window the flag is set by exactly the push that takes the
  cursor from \<open>WINDOW_SIZE - 1\<close> back to 0; counted from the start, the window is filled
  exactly from the \<open>WINDOW_SIZE\<close>-th push on and the cursor is the number of pushes
  modulo \<open>WINDOW_SIZE\<close>.
\<close>

theorem fill_flag_and_cursor:
  "unat (index (geophone_buffer (buffer_add_sample v g))) < WINDOW_SIZE
   \<and> (filled (geophone_buffer g) \<longrightarrow> filled (geophone_buffer (buffer_add_sample v g)))
   \<and> (window_ok (geophone_buffer g) \<longrightarrow>
        filled (geophone_buffer (buffer_add_sample v g)) =
          (filled (geophone_buffer g) \<or> unat (index (geophone_buffer g)) = WINDOW_SIZE - 1)
        \<and> (unat (index (geophone_buffer (buffer_add_sample v g))) = 0) =
            (unat (index (geophone_buffer g)) = WINDOW_SIZE - 1))
   \<and> filled (geophone_buffer (push_all vs globals_init)) = (WINDOW_SIZE \<le> length vs)
   \<and> unat (index (geophone_buffer (push_all vs globals_init))) = length vs mod WINDOW_SIZE"
proof -
  have a: "unat (index (geophone_buffer (buffer_add_sample v g))) < WINDOW_SIZE"
    by (simp add: push_index WINDOW_SIZE_def)
  have b: "filled (geophone_buffer g) \<longrightarrow> filled (geophone_buffer (buffer_add_sample v g))"
    by (simp add: push_filled)
  have c: "window_ok (geophone_buffer g) \<longrightarrow>
        filled (geophone_buffer (buffer_add_sample v g)) =
          (filled (geophone_buffer g) \<or> unat (index (geophone_buffer g)) = WINDOW_SIZE - 1)
        \<and> (unat (index (geophone_buffer (buffer_add_sample v g))) = 0) =
            (unat (index (geophone_buffer g)) = WINDOW_SIZE - 1)"
    by (auto simp: window_ok_def push_filled push_index WINDOW_SIZE_def)
  have d: "filled (geophone_buffer (push_all vs globals_init)) = (WINDOW_SIZE \<le> length vs)"
    using push_all_filled [OF window_ok_init, of vs] by (simp add: globals_init_def)
  have e: "unat (index (geophone_buffer (push_all vs globals_init))) = length vs mod WINDOW_SIZE"
    using push_all_index [OF window_ok_init, of vs] by (simp add: globals_init_def)
  show ?thesis using a b c d e by blast
qed

theorem fill_flag_and_cursor_witness:
  "filled (geophone_buffer g_wrap) \<and> window_ok (geophone_buffer g_wrap)
   \<and> filled (geophone_buffer (buffer_add_sample (Finite 2) g_wrap))
   \<and> unat (index (geophone_buffer (buffer_add_sample (Finite 2) g_wrap))) = 0
   \<and> filled (geophone_buffer (push_all (replicate 300 (Finite 2)) globals_init))
   \<and> unat (index (geophone_buffer (push_all (replicate 300 (Finite 2)) globals_init))) = 44"
proof -
  have h1: "filled (geophone_buffer g_wrap)" by (simp add: g_wrap_def)
  have h2: "window_ok (geophone_buffer g_wrap)"
    by (simp add: g_wrap_def window_ok_def WINDOW_SIZE_def)
  have i: "unat (index (geophone_buffer g_wrap)) = WINDOW_SIZE - 1"
    by (simp add: g_wrap_def WINDOW_SIZE_def)
  show ?thesis
    using h1 h2 i fill_flag_and_cursor [of "Finite 2" g_wrap "replicate 300 (Finite 2)"]
    by (simp add: WINDOW_SIZE_def)
qed

text \<open>
  Claim C4, as amended. \<^verbatim>\<open>run_inference\<close> folds over the array in storage order, slot
  0 first. After at least \<open>WINDOW_SIZE\<close> pushes into a well-formed window the array holds
  the last \<open>WINDOW_SIZE\<close> pushed values rotated: read from the cursor round to the
  cursor they are in chronological order, oldest first. What the classifier reads is in
  chronological order when the cursor is 0.
\<close>

theorem window_storage_order:
  assumes "window_ok (geophone_buffer g)" and "WINDOW_SIZE \<le> length vs"
  shows "avg_amplitude (buffer (geophone_buffer (push_all vs g))) =
           fdiv (fold (\<lambda>x acc. fadd acc (fabsf x)) (window_read (push_all vs g)) (Finite 0))
             (Finite 256)
    \<and> unat (index (geophone_buffer (push_all vs g))) =
        (unat (index (geophone_buffer g)) + length vs) mod WINDOW_SIZE
    \<and> drop (unat (index (geophone_buffer (push_all vs g)))) (window_read (push_all vs g))
        @ take (unat (index (geophone_buffer (push_all vs g)))) (window_read (push_all vs g))
        = drop (length vs - WINDOW_SIZE) vs
    \<and> (unat (index (geophone_buffer (push_all vs g))) = 0 \<longrightarrow>
         window_read (push_all vs g) = drop (length vs - WINDOW_SIZE) vs)"
proof -
  let ?g = "push_all vs g"
  have ok: "window_ok (geophone_buffer ?g)" by (rule push_all_ok [OF assms(1)])
  have l: "length (chronological (geophone_buffer g)) = WINDOW_SIZE"
    by (rule chronological_length [OF assms(1)])
  have c: "chronological (geophone_buffer ?g) = drop (length vs - WINDOW_SIZE) vs"
    using push_all_chronological [OF assms(1), of vs] l assms(2) by simp
  have r: "window_read ?g = buffer (geophone_buffer ?g)" by (rule window_read_buffer [OF ok])
  show ?thesis
    using c r push_all_index [OF assms(1), of vs] avg_amplitude_window_read [of ?g]
    by (auto simp: chronological_def)
qed

theorem window_storage_order_witness:
  "window_ok (geophone_buffer globals_init) \<and> WINDOW_SIZE \<le> length ramp
   \<and> unat (index (geophone_buffer (push_all ramp globals_init))) = 1
   \<and> drop 1 (window_read (push_all ramp globals_init))
        @ take 1 (window_read (push_all ramp globals_init)) = drop 1 ramp
   \<and> WINDOW_SIZE \<le> length (replicate 512 (Finite 3))
   \<and> unat (index (geophone_buffer (push_all (replicate 512 (Finite 3)) globals_init))) = 0
   \<and> window_read (push_all (replicate 512 (Finite 3)) globals_init) = replicate 256 (Finite 3)"
proof -
  have h: "WINDOW_SIZE \<le> length ramp" by (simp add: ramp_def WINDOW_SIZE_def)
  have n: "length ramp = 257" by (simp add: ramp_def)
  have a: "unat (index (geophone_buffer (push_all ramp globals_init))) = 1
      \<and> drop 1 (window_read (push_all ramp globals_init))
           @ take 1 (window_read (push_all ramp globals_init)) = drop 1 ramp"
    using n window_storage_order [OF window_ok_init h]
    by (auto simp: WINDOW_SIZE_def)
  have h2: "WINDOW_SIZE \<le> length (replicate 512 (Finite 3))" by (simp add: WINDOW_SIZE_def)
  have b: "unat (index (geophone_buffer (push_all (replicate 512 (Finite 3)) globals_init))) = 0
      \<and> window_read (push_all (replicate 512 (Finite 3)) globals_init) = replicate 256 (Finite 3)"
    using window_storage_order [OF window_ok_init h2]
    by (auto simp: WINDOW_SIZE_def)
  show ?thesis using window_ok_init h a h2 b by blast
qed

text \<open>
  Claim C4 as stated fails: after 257 pushes of 0, 1, ..., 256 the classifier reads 256
  first, and the last 256 values oldest first begin with 1.
\<close>

theorem chronological_window_counterexample:
  "WINDOW_SIZE < length ramp
   \<and> window_read (push_all ramp globals_init) \<noteq> drop (length ramp - WINDOW_SIZE) ramp"
proof -
  let ?g = "push_all ramp globals_init"
  let ?b = "buffer (geophone_buffer ?g)"
  have n: "length ramp = 257" by (simp add: ramp_def)
  have ok: "window_ok (geophone_buffer ?g)" by (rule push_all_ok [OF window_ok_init])
  then have len: "length ?b = 256" by (simp add: window_ok_def WINDOW_SIZE_def)
  have i: "unat (index (geophone_buffer ?g)) = 1"
    using push_all_index [OF window_ok_init, of ramp] n by (simp add: WINDOW_SIZE_def)
  have "chronological (geophone_buffer ?g) = drop 1 ramp"
    using push_all_chronological [OF window_ok_init, of ramp]
      chronological_length [OF window_ok_init] n
    by (simp add: WINDOW_SIZE_def)
  then have c: "drop 1 ?b @ take 1 ?b = drop 1 ramp"
    by (simp add: chronological_def i)
  have "(drop 1 ?b @ take 1 ?b) ! 255 = ?b ! 0"
    using len by (simp add: nth_append)
  then have newest: "?b ! 0 = Finite 256"
    using c n by (simp add: ramp_def)
  have "(drop 1 ramp) ! 0 = Finite 1"
    using n by (simp add: ramp_def)
  then have "?b \<noteq> drop 1 ramp"
    using newest by auto
  then show ?thesis
    using n window_read_buffer [OF ok] by (simp add: WINDOW_SIZE_def)
qed

section \<open>The silence button\<close>

lemma pulses_no_button_message: "filter is_button_message (pulses pin n d) = []"
  by (induction n) simp_all

lemma check_button_fires:
  assumes "\<not> level" and "500 < now - last_press g"
  shows "alert_silenced (check_button level now g) = (\<not> alert_silenced g)"
    and "last_press (check_button level now g) = now"
    and "toggles (check_button level now g) = toggles g + 1"
    and "total_events (check_button level now g) = total_events g"
    and "geophone_buffer (check_button level now g) = geophone_buffer g"
  using assms
  by (simp_all add: check_button_def Let_def toggles_def pulses_no_button_message)

lemma check_button_idle:
  assumes "level \<or> now - last_press g \<le> 500"
  shows "check_button level now g = g"
  using assms by (auto simp: check_button_def)

text \<open>
  Claim C5, as amended. A read toggles the silence flag exactly when the pin reads active
  (low) and more than 500 ms have passed since the last accepted toggle, in 32-bit
  millisecond arithmetic. After an accepted active read, a second active read at most
  500 ms later changes nothing, so there is one toggle; one more than 500 ms later
  toggles again, so there are two.
\<close>

theorem debounce_refractory:
  assumes "500 < t1 - last_press g"
  shows "toggles (check_button False t1 g) = toggles g + 1
    \<and> alert_silenced (check_button False t1 g) = (\<not> alert_silenced g)
    \<and> (t2 - t1 \<le> 500 \<longrightarrow>
          check_button False t2 (check_button False t1 g) = check_button False t1 g)
    \<and> (500 < t2 - t1 \<longrightarrow>
          toggles (check_button False t2 (check_button False t1 g)) = toggles g + 2
          \<and> alert_silenced (check_button False t2 (check_button False t1 g)) = alert_silenced g)
    \<and> (check_button level now g \<noteq> g) = (\<not> level \<and> 500 < now - last_press g)"
proof -
  let ?g1 = "check_button False t1 g"
  have a: "toggles ?g1 = toggles g + 1" "alert_silenced ?g1 = (\<not> alert_silenced g)"
    and l: "last_press ?g1 = t1"
    using check_button_fires [of False t1 g] assms by simp_all
  have b: "t2 - t1 \<le> 500 \<longrightarrow> check_button False t2 ?g1 = ?g1"
    using check_button_idle [of False t2 ?g1] l by simp
  have c: "500 < t2 - t1 \<longrightarrow> toggles (check_button False t2 ?g1) = toggles g + 2
      \<and> alert_silenced (check_button False t2 ?g1) = alert_silenced g"
    using check_button_fires [of False t2 ?g1] l a by simp
  have d: "(check_button level now g \<noteq> g) = (\<not> level \<and> 500 < now - last_press g)"
  proof (cases "\<not> level \<and> 500 < now - last_press g")
    case True
    then have "alert_silenced (check_button level now g) \<noteq> alert_silenced g"
      using check_button_fires(1) [of level now g] by simp
    then show ?thesis using True by auto
  next
    case False
    then have "level \<or> now - last_press g \<le> 500" by (auto simp: not_less)
    then have "check_button level now g = g" by (rule check_button_idle)
    then show ?thesis using False by simp
  qed
  show ?thesis using a b c d by blast
qed

theorem debounce_refractory_witness:
  "(500 :: 32 word) < 1000 - last_press globals_init
   \<and> toggles (check_button False 1000 globals_init) = 1
   \<and> alert_silenced (check_button False 1000 globals_init)
   \<and> check_button False 1400 (check_button False 1000 globals_init)
        = check_button False 1000 globals_init
   \<and> toggles (check_button False 1501 (check_button False 1000 globals_init)) = 2
   \<and> \<not> alert_silenced (check_button False 1501 (check_button False 1000 globals_init))"
proof -
  have h: "(500 :: 32 word) < 1000 - last_press globals_init"
    by (simp add: globals_init_def)
  have t: "toggles globals_init = 0" by (simp add: toggles_def globals_init_def)
  have s: "\<not> alert_silenced globals_init" by (simp add: globals_init_def)
  show ?thesis
    using h t s debounce_refractory [OF h, of 1400] debounce_refractory [OF h, of 1501]
    by simp
qed

text \<open>
  Claim C5 as stated fails at a separation of exactly 500 ms: the read at 1000 ms is
  accepted, the read at 1500 ms is not, and one toggle has happened, not two.
\<close>

theorem refractory_500_counterexample:
  "(1500 :: 32 word) - 1000 = 500
   \<and> toggles (check_button False 1000 globals_init) = toggles globals_init + 1
   \<and> toggles (check_button False 1500 (check_button False 1000 globals_init))
        = toggles globals_init + 1
   \<and> check_button False 1500 (check_button False 1000 globals_init)
        = check_button False 1000 globals_init"
proof -
  have h: "\<not> False" "(500 :: 32 word) < 1000 - last_press globals_init"
    by (simp_all add: globals_init_def)
  have l: "last_press (check_button False 1000 globals_init) = 1000"
    and t: "toggles (check_button False 1000 globals_init) = toggles globals_init + 1"
    using check_button_fires [OF h] by simp_all
  have "check_button False 1500 (check_button False 1000 globals_init)
          = check_button False 1000 globals_init"
    using check_button_idle [of False 1500 "check_button False 1000 globals_init"] l by simp
  then show ?thesis using t by simp
qed

section \<open>The main loop\<close>

lemma pulses_no_status: "filter is_status_message (pulses pin n d) = []"
  by (induction n) simp_all

lemma process_frame [simp]:
  "geophone_buffer (process_inference_result r g) = geophone_buffer g"
  "status_reports (process_inference_result r g) = status_reports g"
  by (simp_all add: process_inference_result_def Let_def alert_critical_def
        alert_high_confidence_def alert_low_confidence_def status_reports_def pulses_no_status)

lemma process_total:
  "total_events (process_inference_result r g) =
     (if label r = ''noise'' then total_events g else total_events g + 1)"
  by (simp add: process_inference_result_def Let_def alert_critical_def
        alert_high_confidence_def alert_low_confidence_def)

lemma check_button_frame [simp]:
  "geophone_buffer (check_button level now g) = geophone_buffer g"
  "status_reports (check_button level now g) = status_reports g"
  "total_events (check_button level now g) = total_events g"
  by (simp_all add: check_button_def Let_def status_reports_def pulses_no_status)

lemma status_frame [simp]:
  "geophone_buffer (print_system_status g) = geophone_buffer g"
  "status_reports (print_system_status g) = status_reports g + 1"
  "total_events (print_system_status g) = total_events g"
  by (simp_all add: print_system_status_def status_reports_def)

lemma emit_frame [simp]:
  "status_reports (emit [Gpio_put p b] g) = status_reports g"
  "status_reports (emit [Sleep_ms d] g) = status_reports g"
  by (simp_all add: status_reports_def)

lemma add_sample_frame [simp]:
  "status_reports (buffer_add_sample v g) = status_reports g"
  "total_events (buffer_add_sample v g) = total_events g"
  by (simp_all add: buffer_add_sample_def Let_def status_reports_def)

lemmas step_defs = main_iteration_def idle_step_def button_step_def heartbeat_step_def
  status_step_def
  classification_step_def acquisition_step_def split_beta Let_def

lemma iteration_acquisition:
  "last_sample_time (fst (main_iteration i (l, g))) =
     (if acquisition_due (clock_now i) l then clock_now i else last_sample_time l)"
  "geophone_buffer (snd (main_iteration i (l, g))) =
     (if acquisition_due (clock_now i) l
      then geophone_buffer (buffer_add_sample
             (velocity_m_s (acquire_geophone_sample (adc i) (clock_sample i))) g)
      else geophone_buffer g)"
  by (simp_all add: step_defs)

lemma iteration_classification:
  "last_inference_time (fst (main_iteration i (l, g))) =
     (if classification_due (clock_now i) (acquisition_step i (l, g))
      then clock_now i else last_inference_time l)"
  "inference (fst (main_iteration i (l, g))) =
     (if classification_due (clock_now i) (acquisition_step i (l, g))
      then run_inference (snd (acquisition_step i (l, g)))
             (clock_inference_start i) (clock_inference_end i) (inference l)
      else inference l)"
  "total_events (snd (main_iteration i (l, g))) =
     (if classification_due (clock_now i) (acquisition_step i (l, g))
         \<and> label (run_inference (snd (acquisition_step i (l, g)))
             (clock_inference_start i) (clock_inference_end i) (inference l)) \<noteq> ''noise''
      then total_events g + 1 else total_events g)"
  by (simp_all add: step_defs process_total)

lemma iteration_status:
  "last_status_time (fst (main_iteration i (l, g))) =
     (if status_due (clock_now i) l then clock_now i else last_status_time l)"
  "status_reports (snd (main_iteration i (l, g))) =
     (if status_due (clock_now i) l then status_reports g + 1 else status_reports g)"
  by (simp_all add: step_defs status_due_def)


lemma acquisition_keeps_filled:
  "filled (geophone_buffer g) \<Longrightarrow> filled (geophone_buffer (snd (acquisition_step i (l, g))))"
  by (simp add: acquisition_step_def Let_def push_filled)

lemma acquisition_keeps_inference_time:
  "last_inference_time (fst (acquisition_step i (l, g))) = last_inference_time l"
  by (simp add: acquisition_step_def Let_def)

text \<open>
  Claim C3, as amended. In one iteration the acquisition cadence fires exactly when
  \<open>now - last_sample_time \<ge> 10\<close> and pushes one sample, the status cadence exactly when
  \<open>now - last_status_time \<ge> 30000\<close> and prints one report, and the classification
  cadence exactly when the window is filled after this iteration's acquisition and
  \<open>now - last_inference_time \<ge> 2560\<close>; a cadence that fires sets its time stamp to
  \<open>now\<close>. After a stall of three periods the cadence fires once in the iteration that
  resumes and not in the next one less than a period later: one push, one inference
  processed once, one report. Time differences are taken in 32-bit arithmetic.
\<close>

theorem cadence_firing:
  "last_sample_time (fst (main_iteration i (l, g))) =
     (if SAMPLE_PERIOD_MS \<le> clock_now i - last_sample_time l
      then clock_now i else last_sample_time l)
   \<and> geophone_buffer (snd (main_iteration i (l, g))) =
     (if SAMPLE_PERIOD_MS \<le> clock_now i - last_sample_time l
      then geophone_buffer (buffer_add_sample
             (velocity_m_s (acquire_geophone_sample (adc i) (clock_sample i))) g)
      else geophone_buffer g)
   \<and> last_inference_time (fst (main_iteration i (l, g))) =
     (if filled (geophone_buffer (snd (acquisition_step i (l, g))))
         \<and> 2560 \<le> clock_now i - last_inference_time l
      then clock_now i else last_inference_time l)
   \<and> inference (fst (main_iteration i (l, g))) =
     (if filled (geophone_buffer (snd (acquisition_step i (l, g))))
         \<and> 2560 \<le> clock_now i - last_inference_time l
      then run_inference (snd (acquisition_step i (l, g)))
             (clock_inference_start i) (clock_inference_end i) (inference l)
      else inference l)
   \<and> last_status_time (fst (main_iteration i (l, g))) =
     (if 30000 \<le> clock_now i - last_status_time l then clock_now i else last_status_time l)
   \<and> status_reports (snd (main_iteration i (l, g))) =
     (if 30000 \<le> clock_now i - last_status_time l
      then status_reports g + 1 else status_reports g)
   \<and> (3 * SAMPLE_PERIOD_MS \<le> clock_now i - last_sample_time l
        \<and> clock_now j - clock_now i < SAMPLE_PERIOD_MS \<longrightarrow>
      last_sample_time (fst (main_loop [i, j] (l, g))) = clock_now i
      \<and> geophone_buffer (snd (main_loop [i, j] (l, g))) =
          geophone_buffer (buffer_add_sample
            (velocity_m_s (acquire_geophone_sample (adc i) (clock_sample i))) g))
   \<and> (filled (geophone_buffer g) \<and> 3 * 2560 \<le> clock_now i - last_inference_time l
        \<and> clock_now j - clock_now i < 2560 \<longrightarrow>
      last_inference_time (fst (main_loop [i, j] (l, g))) = clock_now i
      \<and> inference (fst (main_loop [i, j] (l, g))) =
          run_inference (snd (acquisition_step i (l, g)))
            (clock_inference_start i) (clock_inference_end i) (inference l)
      \<and> total_events (snd (main_loop [i, j] (l, g))) =
          (if label (run_inference (snd (acquisition_step i (l, g)))
                 (clock_inference_start i) (clock_inference_end i) (inference l)) = ''noise''
           then total_events g else total_events g + 1))
   \<and> (3 * 30000 \<le> clock_now i - last_status_time l
        \<and> clock_now j - clock_now i < 30000 \<longrightarrow>
      last_status_time (fst (main_loop [i, j] (l, g))) = clock_now i
      \<and> status_reports (snd (main_loop [i, j] (l, g))) = status_reports g + 1)"
proof -
  let ?s = "main_iteration i (l, g)"
  let ?a = "acquisition_step i (l, g)"
  let ?r = "run_inference (snd ?a) (clock_inference_start i) (clock_inference_end i) (inference l)"
  have due: "classification_due (clock_now i) ?a =
      (filled (geophone_buffer (snd ?a)) \<and> 2560 \<le> clock_now i - last_inference_time l)"
    using acquisition_keeps_inference_time [of i l g]
    by (simp add: classification_due_def split_beta)
  have two: "main_loop [i, j] (l, g) = main_iteration j (fst ?s, snd ?s)"
    by simp
  have a1: "last_sample_time (fst ?s) =
     (if SAMPLE_PERIOD_MS \<le> clock_now i - last_sample_time l
      then clock_now i else last_sample_time l)"
    and a2: "geophone_buffer (snd ?s) =
     (if SAMPLE_PERIOD_MS \<le> clock_now i - last_sample_time l
      then geophone_buffer (buffer_add_sample
             (velocity_m_s (acquire_geophone_sample (adc i) (clock_sample i))) g)
      else geophone_buffer g)"
    using iteration_acquisition [of i l g] by (simp_all add: acquisition_due_def)
  have c1: "last_inference_time (fst ?s) =
     (if filled (geophone_buffer (snd ?a)) \<and> 2560 \<le> clock_now i - last_inference_time l
      then clock_now i else last_inference_time l)"
    and c2: "inference (fst ?s) =
     (if filled (geophone_buffer (snd ?a)) \<and> 2560 \<le> clock_now i - last_inference_time l
      then ?r else inference l)"
    and c3: "total_events (snd ?s) =
     (if (filled (geophone_buffer (snd ?a)) \<and> 2560 \<le> clock_now i - last_inference_time l)
         \<and> label ?r \<noteq> ''noise''
      then total_events g + 1 else total_events g)"
    using iteration_classification [of i l g] due by simp_all
  have s1: "last_status_time (fst ?s) =
     (if 30000 \<le> clock_now i - last_status_time l then clock_now i else last_status_time l)"
    and s2: "status_reports (snd ?s) =
     (if 30000 \<le> clock_now i - last_status_time l
      then status_reports g + 1 else status_reports g)"
    using iteration_status [of i l g] by (simp_all add: status_due_def)
  have stall_a: "last_sample_time (fst (main_loop [i, j] (l, g))) = clock_now i
      \<and> geophone_buffer (snd (main_loop [i, j] (l, g))) =
          geophone_buffer (buffer_add_sample
            (velocity_m_s (acquire_geophone_sample (adc i) (clock_sample i))) g)"
    if h: "3 * SAMPLE_PERIOD_MS \<le> clock_now i - last_sample_time l"
          "clock_now j - clock_now i < SAMPLE_PERIOD_MS"
  proof -
    have "SAMPLE_PERIOD_MS \<le> 3 * SAMPLE_PERIOD_MS" by (simp add: SAMPLE_PERIOD_MS_def)
    then have d: "SAMPLE_PERIOD_MS \<le> clock_now i - last_sample_time l"
      using h(1) by (rule order_trans)
    have n: "\<not> acquisition_due (clock_now j) (fst ?s)"
      using h(2) a1 d by (simp add: acquisition_due_def not_le)
    show ?thesis
      unfolding two using iteration_acquisition [of j "fst ?s" "snd ?s"] n a1 a2 d by simp
  qed
  have stall_c: "last_inference_time (fst (main_loop [i, j] (l, g))) = clock_now i
      \<and> inference (fst (main_loop [i, j] (l, g))) = ?r
      \<and> total_events (snd (main_loop [i, j] (l, g))) =
          (if label ?r = ''noise'' then total_events g else total_events g + 1)"
    if h: "filled (geophone_buffer g)" "3 * 2560 \<le> clock_now i - last_inference_time l"
          "clock_now j - clock_now i < 2560"
  proof -
    have f: "filled (geophone_buffer (snd ?a))"
      by (rule acquisition_keeps_filled [OF h(1)])
    have "(2560 :: 32 word) \<le> 3 * 2560" by simp
    then have d: "2560 \<le> clock_now i - last_inference_time l"
      using h(2) by (rule order_trans)
    have t: "last_inference_time (fst (acquisition_step j (fst ?s, snd ?s))) = clock_now i"
      using acquisition_keeps_inference_time [of j "fst ?s" "snd ?s"] c1 f d by simp
    have n: "\<not> classification_due (clock_now j) (acquisition_step j (fst ?s, snd ?s))"
      using h(3) t by (simp add: classification_due_def split_beta not_le)
    show ?thesis
      unfolding two using iteration_classification [of j "fst ?s" "snd ?s"] n c1 c2 c3 f d
      by simp
  qed
  have stall_s: "last_status_time (fst (main_loop [i, j] (l, g))) = clock_now i
      \<and> status_reports (snd (main_loop [i, j] (l, g))) = status_reports g + 1"
    if h: "3 * 30000 \<le> clock_now i - last_status_time l" "clock_now j - clock_now i < 30000"
  proof -
    have "(30000 :: 32 word) \<le> 3 * 30000" by simp
    then have d: "30000 \<le> clock_now i - last_status_time l"
      using h(1) by (rule order_trans)
    have n: "\<not> status_due (clock_now j) (fst ?s)"
      using h(2) s1 d by (simp add: status_due_def not_le)
    show ?thesis
      unfolding two using iteration_status [of j "fst ?s" "snd ?s"] n s1 s2 d by simp
  qed
  show ?thesis
    using a1 a2 c1 c2 s1 s2 stall_a stall_c stall_s by blast
qed


theorem cadence_firing_witness:
  "(3 * SAMPLE_PERIOD_MS \<le> clock_now tick_a - last_sample_time locals_0
      \<and> clock_now tick_b - clock_now tick_a < SAMPLE_PERIOD_MS)
   \<and> (filled (geophone_buffer g_wrap) \<and> 3 * 2560 \<le> clock_now tick_a - last_inference_time locals_0
      \<and> clock_now tick_b - clock_now tick_a < 2560)
   \<and> (3 * 30000 \<le> clock_now tick_a - last_status_time locals_0
      \<and> clock_now tick_b - clock_now tick_a < 30000)
   \<and> last_sample_time (fst (main_loop [tick_a, tick_b] (locals_0, g_wrap))) = clock_now tick_a
   \<and> last_inference_time (fst (main_loop [tick_a, tick_b] (locals_0, g_wrap))) = clock_now tick_a
   \<and> last_status_time (fst (main_loop [tick_a, tick_b] (locals_0, g_wrap))) = clock_now tick_a
   \<and> status_reports (snd (main_loop [tick_a, tick_b] (locals_0, g_wrap))) = status_reports g_wrap + 1"
proof -
  have h1: "3 * SAMPLE_PERIOD_MS \<le> clock_now tick_a - last_sample_time locals_0
      \<and> clock_now tick_b - clock_now tick_a < SAMPLE_PERIOD_MS"
    by (simp add: tick_a_def tick_b_def locals_0_def SAMPLE_PERIOD_MS_def)
  have h2: "filled (geophone_buffer g_wrap) \<and> 3 * 2560 \<le> clock_now tick_a - last_inference_time locals_0
      \<and> clock_now tick_b - clock_now tick_a < 2560"
    by (simp add: tick_a_def tick_b_def locals_0_def g_wrap_def)
  have h3: "3 * 30000 \<le> clock_now tick_a - last_status_time locals_0
      \<and> clock_now tick_b - clock_now tick_a < 30000"
    by (simp add: tick_a_def tick_b_def locals_0_def)
  show ?thesis
    using h1 h2 h3 cadence_firing [of tick_a locals_0 g_wrap tick_b] by blast
qed

text \<open>
  Claim C3 as stated fails for the classification cadence: at 90000 ms after start with an
  unfilled window, \<open>now - last_inference_time \<ge> 2560\<close> holds and the cadence does not
  fire.
\<close>

theorem classification_gate_counterexample:
  "2560 \<le> clock_now tick_a - last_inference_time locals_0
   \<and> last_inference_time (fst (main_iteration tick_a (locals_0, globals_init)))
        = last_inference_time locals_0
   \<and> last_inference_time (fst (main_iteration tick_a (locals_0, globals_init))) \<noteq> clock_now tick_a
   \<and> inference (fst (main_iteration tick_a (locals_0, globals_init))) = inference locals_0
   \<and> total_events (snd (main_iteration tick_a (locals_0, globals_init))) = total_events globals_init"
proof -
  have d: "2560 \<le> clock_now tick_a - last_inference_time locals_0"
    by (simp add: tick_a_def locals_0_def)
  have "\<not> filled (geophone_buffer (snd (acquisition_step tick_a (locals_0, globals_init))))"
    by (simp add: acquisition_step_def Let_def push_filled)
  then have n: "\<not> classification_due (clock_now tick_a) (acquisition_step tick_a (locals_0, globals_init))"
    by (simp add: classification_due_def split_beta)
  have t: "last_inference_time locals_0 \<noteq> clock_now tick_a"
    by (simp add: tick_a_def locals_0_def)
  show ?thesis
    using d n t iteration_classification [of tick_a locals_0 globals_init] by simp
qed

lemma run_inference_label:
  "filled (geophone_buffer g) \<Longrightarrow>
     label (run_inference g t0 t1 r) \<in> {''earthquake'', ''tremor'', ''noise''}"
  by (simp add: run_inference_def Let_def)

lemma iteration_label:
  assumes "label (inference (fst s)) \<noteq> ''insufficient_data''"
  shows "label (inference (fst (main_iteration i s))) \<noteq> ''insufficient_data''"
proof (cases "classification_due (clock_now i) (acquisition_step i (fst s, snd s))")
  case True
  then have "filled (geophone_buffer (snd (acquisition_step i (fst s, snd s))))"
    by (simp add: classification_due_def split_beta)
  then show ?thesis
    using True iteration_classification(2) [of i "fst s" "snd s"]
      run_inference_label [of "snd (acquisition_step i (fst s, snd s))"
        "clock_inference_start i" "clock_inference_end i" "inference (fst s)"]
    by auto
next
  case False
  then show ?thesis
    using assms iteration_classification(2) [of i "fst s" "snd s"] by simp
qed

lemma loop_label:
  "label (inference (fst s)) \<noteq> ''insufficient_data'' \<Longrightarrow>
     label (inference (fst (main_loop is s))) \<noteq> ''insufficient_data''"
  by (induction "is" arbitrary: s) (simp_all add: iteration_label)

text \<open>
  Claim C10. Called on an unfilled window, \<^verbatim>\<open>run_inference\<close> sets the label to
  \<open>insufficient_data\<close>, the confidence to 0 and the inference time to 0, and leaves
  \<open>timestamp_ms\<close> as it was. The main loop does not reach that branch: with an unfilled
  window the classification step does nothing, an iteration changes \<open>inference\<close> only
  when the window is filled, and no run of the loop produces the label
  \<open>insufficient_data\<close>.
\<close>

theorem insufficient_data_branch:
  "(\<not> filled (geophone_buffer g) \<longrightarrow>
      run_inference g t0 t1 r =
        r\<lparr>label := ''insufficient_data'', confidence := Finite 0, inference_time_ms := 0\<rparr>
      \<and> timestamp_ms (run_inference g t0 t1 r) = timestamp_ms r
      \<and> classification_step i (l, g) = (l, g))
   \<and> (filled (geophone_buffer g) \<longrightarrow> label (run_inference g t0 t1 r) \<noteq> ''insufficient_data'')
   \<and> (inference (fst (main_iteration i (l, g))) \<noteq> inference l \<longrightarrow>
        filled (geophone_buffer (snd (acquisition_step i (l, g)))))
   \<and> (label (inference (fst s)) \<noteq> ''insufficient_data'' \<longrightarrow>
        label (inference (fst (main_loop is s))) \<noteq> ''insufficient_data'')"
proof -
  have a: "\<not> filled (geophone_buffer g) \<longrightarrow>
      run_inference g t0 t1 r =
        r\<lparr>label := ''insufficient_data'', confidence := Finite 0, inference_time_ms := 0\<rparr>
      \<and> timestamp_ms (run_inference g t0 t1 r) = timestamp_ms r
      \<and> classification_step i (l, g) = (l, g)"
    by (simp add: run_inference_def classification_step_def classification_due_def)
  have b: "filled (geophone_buffer g) \<longrightarrow> label (run_inference g t0 t1 r) \<noteq> ''insufficient_data''"
    using run_inference_label [of g t0 t1 r] by auto
  have c: "inference (fst (main_iteration i (l, g))) \<noteq> inference l \<longrightarrow>
        filled (geophone_buffer (snd (acquisition_step i (l, g))))"
    using iteration_classification(2) [of i l g]
    by (auto simp: classification_due_def split_beta split: if_splits)
  have d: "label (inference (fst s)) \<noteq> ''insufficient_data'' \<longrightarrow>
        label (inference (fst (main_loop is s))) \<noteq> ''insufficient_data''"
    using loop_label [of s "is"] by blast
  show ?thesis using a b c d by blast
qed

theorem insufficient_data_branch_witness:
  "\<not> filled (geophone_buffer globals_init)
   \<and> label (run_inference globals_init 7 9 r_critical) = ''insufficient_data''
   \<and> confidence (run_inference globals_init 7 9 r_critical) = Finite 0
   \<and> inference_time_ms (run_inference globals_init 7 9 r_critical) = 0
   \<and> timestamp_ms (run_inference globals_init 7 9 r_critical) = 5000
   \<and> classification_step tick_a (locals_0, globals_init) = (locals_0, globals_init)
   \<and> filled (geophone_buffer g_wrap)
   \<and> label (run_inference g_wrap 7 9 r_critical) \<noteq> ''insufficient_data''
   \<and> inference (fst (main_iteration tick_a (locals_0, g_wrap))) \<noteq> inference locals_0
   \<and> filled (geophone_buffer (snd (acquisition_step tick_a (locals_0, g_wrap))))
   \<and> label (inference (fst (locals_0, globals_init))) \<noteq> ''insufficient_data''
   \<and> label (inference (fst (main_loop [tick_a, tick_b] (locals_0, globals_init))))
        \<noteq> ''insufficient_data''"
proof -
  have h1: "\<not> filled (geophone_buffer globals_init)" by simp
  have h2: "filled (geophone_buffer g_wrap)" by (simp add: g_wrap_def)
  have f: "filled (geophone_buffer (snd (acquisition_step tick_a (locals_0, g_wrap))))"
    by (rule acquisition_keeps_filled [OF h2])
  have d: "classification_due (clock_now tick_a) (acquisition_step tick_a (locals_0, g_wrap))"
    using f acquisition_keeps_inference_time [of tick_a locals_0 g_wrap]
    by (simp add: classification_due_def split_beta tick_a_def locals_0_def)
  have "timestamp_ms (inference (fst (main_iteration tick_a (locals_0, g_wrap)))) = 90001"
    using iteration_classification(2) [of tick_a locals_0 g_wrap] d f
    by (simp add: run_inference_def Let_def tick_a_def)
  moreover have "timestamp_ms (inference locals_0) = 2560"
    by (simp add: locals_0_def r_quiet_def)
  ultimately have h3: "inference (fst (main_iteration tick_a (locals_0, g_wrap))) \<noteq> inference locals_0"
    by auto
  have h4: "label (inference (fst (locals_0, globals_init))) \<noteq> ''insufficient_data''"
    by (simp add: locals_0_def r_quiet_def)
  have t: "timestamp_ms r_critical = 5000" by (simp add: r_critical_def)
  have a: "label (run_inference globals_init 7 9 r_critical) = ''insufficient_data''
      \<and> confidence (run_inference globals_init 7 9 r_critical) = Finite 0
      \<and> inference_time_ms (run_inference globals_init 7 9 r_critical) = 0
      \<and> timestamp_ms (run_inference globals_init 7 9 r_critical) = 5000
      \<and> classification_step tick_a (locals_0, globals_init) = (locals_0, globals_init)
      \<and> label (inference (fst (main_loop [tick_a, tick_b] (locals_0, globals_init))))
           \<noteq> ''insufficient_data''"
    using h1 h4 t
      insufficient_data_branch [of globals_init 7 9 r_critical tick_a locals_0
        "(locals_0, globals_init)" "[tick_a, tick_b]"]
    by simp
  have b: "label (run_inference g_wrap 7 9 r_critical) \<noteq> ''insufficient_data''
      \<and> filled (geophone_buffer (snd (acquisition_step tick_a (locals_0, g_wrap))))"
    using h2 h3
      insufficient_data_branch [of g_wrap 7 9 r_critical tick_a locals_0
        "(locals_0, globals_init)" "[tick_a, tick_b]"]
    by blast
  show ?thesis using h1 a h2 b h3 h4 by blast
qed

section \<open>The placeholder classifier\<close>

lemma avg_amplitude_fold:
  "length buf = WINDOW_SIZE \<Longrightarrow>
     avg_amplitude buf = fdiv (fold (\<lambda>x acc. fadd acc (fabsf x)) buf (Finite 0)) (Finite 256)"
proof -
  assume l: "length buf = WINDOW_SIZE"
  have "fold (\<lambda>i acc. fadd acc (fabsf (buf ! i))) [0..<WINDOW_SIZE] (Finite 0) =
        fold (\<lambda>x acc. fadd acc (fabsf x)) (map ((!) buf) [0..<length buf]) (Finite 0)"
    by (simp add: fold_map comp_def l)
  then show ?thesis by (simp add: avg_amplitude_def map_nth)
qed

lemma zero_sum:
  "round32 x = Finite x \<Longrightarrow>
     fold (\<lambda>x acc. fadd acc (fabsf x)) (replicate n (Finite 0)) (Finite x) = Finite x"
  by (induction n) simp_all

lemma uniform_sum:
  "i + j \<le> 256 \<Longrightarrow>
     fold (\<lambda>x acc. fadd acc (fabsf x)) (replicate j (Finite (9 / 128))) (Finite (of_nat i * 9 / 128))
       = Finite (of_nat (i + j) * 9 / 128)"
proof (induction j arbitrary: i)
  case 0
  then show ?case by simp
next
  case (Suc j)
  have e: "(of_nat i * 9 / 128 + 9 / 128 :: rat) = of_int (9 * (int i + 1)) * pow2 (- 7)"
    by (simp add: pow2_def field_simps)
  have "round32 (of_int (9 * (int i + 1)) * pow2 (- 7)) = Finite (of_int (9 * (int i + 1)) * pow2 (- 7))"
    using Suc.prems by (intro round32_exact) simp_all
  then have s: "fadd (Finite (of_nat i * 9 / 128)) (fabsf (Finite (9 / 128))) =
      Finite (of_nat (Suc i) * 9 / 128)"
    by (simp add: e) (simp add: pow2_def field_simps)
  let ?F = "\<lambda>x acc. fadd acc (fabsf x)"
  have "fold ?F (replicate (Suc j) (Finite (9 / 128))) (Finite (of_nat i * 9 / 128)) =
        fold ?F (replicate j (Finite (9 / 128)))
          (fadd (Finite (of_nat i * 9 / 128)) (fabsf (Finite (9 / 128))))"
    by (simp only: replicate_Suc fold_simps comp_apply)
  also have "\<dots> = fold ?F (replicate j (Finite (9 / 128))) (Finite (of_nat (Suc i) * 9 / 128))"
    by (simp only: s)
  also have "\<dots> = Finite (of_nat (Suc i + j) * 9 / 128)"
    by (rule Suc.IH) (use Suc.prems in simp)
  finally show ?case by (simp only: add_Suc add_Suc_right)
qed

lemma uniform_avg: "avg_amplitude uniform_window = Finite (9 / 128)"
proof -
  have "fold (\<lambda>x acc. fadd acc (fabsf x)) uniform_window (Finite 0) = Finite 18"
    using uniform_sum [of 0 256] by (simp add: uniform_window_def WINDOW_SIZE_def)
  moreover have "round32 (9 / 128) = Finite (9 / 128)"
    using round32_exact [of 9 "- 7"] by (simp add: pow2_def)
  ultimately show ?thesis
    by (simp add: avg_amplitude_fold uniform_window_def)
qed

lemma f_0_08_value: "f_0_08 = Finite (10737418 / 134217728)"
  unfolding f_0_08_def
  by (subst round32_normal [of "- 4"]) (simp_all add: round32_eval)

lemma spike_avg: "avg_amplitude spike_window = f_0_08"
proof -
  have a: "round32 (5368709 / 262144) = Finite (5368709 / 262144)"
    using round32_exact [of 5368709 "- 18"] by (simp add: pow2_def)
  have b: "round32 (5368709 / 67108864) = Finite (5368709 / 67108864)"
    using round32_exact [of 5368709 "- 26"] by (simp add: pow2_def)
  have "fold (\<lambda>x acc. fadd acc (fabsf x)) spike_window (Finite 0) = Finite (5368709 / 262144)"
    using zero_sum [OF a, of 255] a by (simp add: spike_window_def)
  then show ?thesis
    using b by (simp add: avg_amplitude_fold spike_window_def WINDOW_SIZE_def f_0_08_value)
qed

lemma confidence_at_0_0703:
  "fadd f_0_85 (fmul (Finite (9 / 128)) (Finite 2)) = Finite (8309965 / 8388608)"
proof -
  have "round32 (9 / 64) = Finite (9 / 64)"
    using round32_exact [of 9 "- 6"] by (simp add: pow2_def)
  moreover have "round32 (14260634 / 16777216 + 9 / 64) = Finite (8309965 / 8388608)"
    by (subst round32_normal [of "- 1"]) (simp_all add: round32_eval)
  ultimately show ?thesis by (simp add: f_0_85_value)
qed

lemma confidence_at_0_08:
  "fadd f_0_85 (fmul f_0_08 (Finite 2)) = Finite (4236247 / 4194304)"
proof -
  have "round32 (10737418 / 134217728 * 2) = Finite (10737418 / 67108864)"
    by (subst round32_normal [of "- 3"]) (simp_all add: round32_eval)
  moreover have "round32 (14260634 / 16777216 + 10737418 / 67108864) = Finite (4236247 / 4194304)"
    by (subst round32_normal [of 0]) (simp_all add: round32_eval)
  ultimately show ?thesis by (simp add: f_0_85_value f_0_08_value)
qed

lemma fle0_fadd: "fle (Finite 0) a \<Longrightarrow> fle (Finite 0) b \<Longrightarrow> fle (Finite 0) (fadd a b)"
  by (cases a; cases b) (simp_all add: round32_nonneg)

lemma fle0_fmul: "fle (Finite 0) a \<Longrightarrow> 0 < k \<Longrightarrow> fle (Finite 0) (fmul a (Finite k))"
  by (cases a) (simp_all add: round32_nonneg finf_def)

lemma fgt_nonneg: "fgt a (Finite c) \<Longrightarrow> 0 \<le> c \<Longrightarrow> fle (Finite 0) a"
  by (cases a) (simp_all add: fgt_def)

lemma not_fgt_one: "fle (Finite 0) c \<Longrightarrow> \<not> fgt c (Finite 1) \<Longrightarrow> fle c (Finite 1)"
  by (cases c) (simp_all add: fgt_def)

lemma affine_unit:
  assumes "fgt avg (Finite c)" and "0 \<le> c" and "fle (Finite 0) base" and "0 < k"
    and "fle (Finite 0) cap" and "fle cap (Finite 1)"
  shows "fle (Finite 0) (if fgt (fadd base (fmul avg (Finite k))) (Finite 1) then cap
                          else fadd base (fmul avg (Finite k)))
       \<and> fle (if fgt (fadd base (fmul avg (Finite k))) (Finite 1) then cap
               else fadd base (fmul avg (Finite k))) (Finite 1)"
proof -
  have "fle (Finite 0) (fadd base (fmul avg (Finite k)))"
    using assms by (intro fle0_fadd fle0_fmul fgt_nonneg [of avg c]) simp_all
  then show ?thesis
    using assms(5,6) not_fgt_one by auto
qed

lemma confidence_in_unit:
  "fle (Finite 0) (confidence (run_inference g t0 t1 r))
   \<and> fle (confidence (run_inference g t0 t1 r)) (Finite 1)"
proof -
  let ?avg = "avg_amplitude (buffer (geophone_buffer g))"
  have e: "fgt ?avg f_0_05 \<Longrightarrow>
      fle (Finite 0) (if fgt (fadd f_0_85 (fmul ?avg (Finite 2))) (Finite 1) then f_0_98
                       else fadd f_0_85 (fmul ?avg (Finite 2)))
      \<and> fle (if fgt (fadd f_0_85 (fmul ?avg (Finite 2))) (Finite 1) then f_0_98
              else fadd f_0_85 (fmul ?avg (Finite 2))) (Finite 1)"
    by (rule affine_unit [of ?avg "13421773 / 268435456"])
       (simp_all add: f_0_05_value f_0_85_value f_0_98_value)
  have t: "fgt ?avg f_0_02 \<Longrightarrow>
      fle (Finite 0) (if fgt (fadd f_0_70 (fmul ?avg (Finite 5))) (Finite 1) then f_0_85
                       else fadd f_0_70 (fmul ?avg (Finite 5)))
      \<and> fle (if fgt (fadd f_0_70 (fmul ?avg (Finite 5))) (Finite 1) then f_0_85
              else fadd f_0_70 (fmul ?avg (Finite 5))) (Finite 1)"
    by (rule affine_unit [of ?avg "5368709 / 268435456"])
       (simp_all add: f_0_02_value f_0_70_value f_0_85_value)
  have n: "fle (Finite 0) f_0_95 \<and> fle f_0_95 (Finite 1)"
    by (simp add: f_0_95_value)
  show ?thesis
    using e t n by (simp add: run_inference_def Let_def)
qed

text \<open>
  Claim C8, as amended. For every window the placeholder classifier returns a confidence
  between 0 and 1. For a filled window whose mean absolute value is above 0.05 the label is
  \<open>earthquake\<close> and the confidence is \<open>0.85 + 2 * mean\<close> when that does not exceed 1,
  and 0.98 when it does; at a mean of 0.08 it is 0.98.
\<close>

theorem classifier_confidence:
  "fle (Finite 0) (confidence (run_inference g t0 t1 r))
   \<and> fle (confidence (run_inference g t0 t1 r)) (Finite 1)
   \<and> (filled (geophone_buffer g) \<and> fgt (avg_amplitude (buffer (geophone_buffer g))) f_0_05 \<longrightarrow>
        label (run_inference g t0 t1 r) = ''earthquake''
        \<and> confidence (run_inference g t0 t1 r) =
            (if fgt (fadd f_0_85 (fmul (avg_amplitude (buffer (geophone_buffer g))) (Finite 2)))
                  (Finite 1)
             then f_0_98
             else fadd f_0_85 (fmul (avg_amplitude (buffer (geophone_buffer g))) (Finite 2))))
   \<and> (filled (geophone_buffer g) \<and> avg_amplitude (buffer (geophone_buffer g)) = f_0_08 \<longrightarrow>
        label (run_inference g t0 t1 r) = ''earthquake''
        \<and> confidence (run_inference g t0 t1 r) = f_0_98)"
proof -
  have a: "filled (geophone_buffer g) \<and> fgt (avg_amplitude (buffer (geophone_buffer g))) f_0_05 \<longrightarrow>
        label (run_inference g t0 t1 r) = ''earthquake''
        \<and> confidence (run_inference g t0 t1 r) =
            (if fgt (fadd f_0_85 (fmul (avg_amplitude (buffer (geophone_buffer g))) (Finite 2)))
                  (Finite 1)
             then f_0_98
             else fadd f_0_85 (fmul (avg_amplitude (buffer (geophone_buffer g))) (Finite 2)))"
    by (simp add: run_inference_def Let_def)
  have b1: "fgt f_0_08 f_0_05"
    by (simp add: f_0_08_value f_0_05_value fgt_def)
  have b2: "fgt (fadd f_0_85 (fmul f_0_08 (Finite 2))) (Finite 1)"
    by (simp add: confidence_at_0_08 fgt_def)
  have b: "filled (geophone_buffer g) \<and> avg_amplitude (buffer (geophone_buffer g)) = f_0_08 \<longrightarrow>
        label (run_inference g t0 t1 r) = ''earthquake''
        \<and> confidence (run_inference g t0 t1 r) = f_0_98"
    using b1 b2 by (simp add: run_inference_def Let_def)
  show ?thesis using confidence_in_unit [of g t0 t1 r] a b by blast
qed

theorem classifier_confidence_witness:
  "filled (geophone_buffer g_uniform)
   \<and> fgt (avg_amplitude (buffer (geophone_buffer g_uniform))) f_0_05
   \<and> label (run_inference g_uniform 0 1 r_quiet) = ''earthquake''
   \<and> confidence (run_inference g_uniform 0 1 r_quiet) = Finite (8309965 / 8388608)
   \<and> fle (confidence (run_inference g_uniform 0 1 r_quiet)) (Finite 1)
   \<and> filled (geophone_buffer g_spike)
   \<and> avg_amplitude (buffer (geophone_buffer g_spike)) = f_0_08
   \<and> label (run_inference g_spike 0 1 r_quiet) = ''earthquake''
   \<and> confidence (run_inference g_spike 0 1 r_quiet) = f_0_98"
proof -
  have h1: "filled (geophone_buffer g_uniform)" by (simp add: g_uniform_def)
  have h2: "fgt (avg_amplitude (buffer (geophone_buffer g_uniform))) f_0_05"
    by (simp add: g_uniform_def uniform_avg f_0_05_value fgt_def)
  have c: "fadd f_0_85 (fmul (avg_amplitude (buffer (geophone_buffer g_uniform))) (Finite 2))
      = Finite (8309965 / 8388608)"
    using confidence_at_0_0703 by (simp add: g_uniform_def uniform_avg)
  have n: "\<not> fgt (Finite (8309965 / 8388608)) (Finite 1)" by (simp add: fgt_def)
  have u: "label (run_inference g_uniform 0 1 r_quiet) = ''earthquake''
      \<and> confidence (run_inference g_uniform 0 1 r_quiet) = Finite (8309965 / 8388608)
      \<and> fle (confidence (run_inference g_uniform 0 1 r_quiet)) (Finite 1)"
    using h1 h2 n classifier_confidence [of g_uniform 0 1 r_quiet]
    unfolding c by simp
  have h3: "filled (geophone_buffer g_spike)" by (simp add: g_spike_def)
  have h4: "avg_amplitude (buffer (geophone_buffer g_spike)) = f_0_08"
    by (simp add: g_spike_def spike_avg)
  have s: "label (run_inference g_spike 0 1 r_quiet) = ''earthquake''
      \<and> confidence (run_inference g_spike 0 1 r_quiet) = f_0_98"
    using h3 h4 classifier_confidence [of g_spike 0 1 r_quiet] by blast
  show ?thesis using h1 h2 u h3 h4 s by blast
qed

text \<open>
  Claim C8 as stated fails: a window of 256 samples of 0.0703125 has mean 0.0703125, in
  the highest band; the confidence is about 0.9906, which is not above 1 and so is not
  replaced, and it is above 0.98.
\<close>

theorem clamp_0_98_counterexample:
  "filled (geophone_buffer g_uniform)
   \<and> fgt (avg_amplitude (buffer (geophone_buffer g_uniform))) f_0_05
   \<and> label (run_inference g_uniform 0 1 r_quiet) = ''earthquake''
   \<and> \<not> fle (confidence (run_inference g_uniform 0 1 r_quiet)) f_0_98"
proof -
  have h1: "filled (geophone_buffer g_uniform)" by (simp add: g_uniform_def)
  have a: "avg_amplitude (buffer (geophone_buffer g_uniform)) = Finite (9 / 128)"
    by (simp add: g_uniform_def uniform_avg)
  have h2: "fgt (Finite (9 / 128)) f_0_05"
    by (simp add: f_0_05_value fgt_def)
  have n: "\<not> fgt (Finite (8309965 / 8388608)) (Finite 1)" by (simp add: fgt_def)
  have c: "confidence (run_inference g_uniform 0 1 r_quiet) = Finite (8309965 / 8388608)"
    and l: "label (run_inference g_uniform 0 1 r_quiet) = ''earthquake''"
    using h1 h2 n confidence_at_0_0703 by (simp_all add: run_inference_def Let_def a)
  have "\<not> fle (Finite (8309965 / 8388608)) f_0_98"
    by (simp add: f_0_98_value)
  then show ?thesis using h1 h2 a c l by simp
qed

section \<open>Acquisition ticks\<close>

lemma overrange_average: "read_adc_averaged (\<lambda>k. 65535) = 65535"
  by code_simp

lemma overrange_voltage: "adc_to_voltage 65535 = Finite (3461093 / 65536)"
proof -
  have a: "round32 65535 = Finite 65535"
    using round32_exact [of 65535 0] by (simp add: pow2_def)
  have b: "round32 (65535 * (13841203 / 4194304)) = Finite (432531 / 2)"
    by (subst round32_normal [of 17]) (simp_all add: round32_eval)
  have c: "round32 (432531 / 2 / 4095) = Finite (3461093 / 65536)"
    by (subst round32_normal [of 5]) (simp_all add: round32_eval)
  show ?thesis
    using a b c by (simp add: adc_to_voltage_def f32_of_u32_def ADC_VREF_value)
qed

lemma overrange_velocity:
  "voltage_to_velocity_ms (Finite (3461093 / 65536)) = Finite (7451019 / 4194304)"
proof -
  have c: "round32 (13841203 / 4194304 / 2) = Finite (13841203 / 8388608)"
    by (subst round32_normal [of 0]) (simp_all add: round32_eval)
  have s: "round32 (3461093 / 65536 - 13841203 / 8388608) = Finite (6705917 / 131072)"
    by (subst round32_normal [of 5]) (simp_all add: round32_eval)
  have v: "round32 (6705917 / 131072 / (15099494 / 524288)) = Finite (7451019 / 4194304)"
    by (subst round32_normal [of 0]) (simp_all add: round32_eval)
  show ?thesis
    using c s v
    by (simp add: voltage_to_velocity_ms_def Let_def fsub_def ADC_VREF_value SENSITIVITY_value)
qed

lemma overrange_sample:
  "raw_voltage (acquire_geophone_sample (\<lambda>k. 65535) t) = Finite (3461093 / 65536)"
  "velocity_m_s (acquire_geophone_sample (\<lambda>k. 65535) t) = Finite (7451019 / 4194304)"
  by (simp_all add: acquire_geophone_sample_def Let_def overrange_average overrange_voltage
        overrange_velocity)

text \<open>
  Claim C9, as amended. On every acquisition tick the velocity computed from whatever the
  ADC returned is written to the slot at the cursor and the cursor advances; the source
  tests neither the read nor the range of the value, so no tick skips its push. The step
  is a total function: it always returns the next state.
\<close>

theorem acquisition_always_pushes:
  assumes "SAMPLE_PERIOD_MS \<le> clock_now i - last_sample_time l"
    and "window_ok (geophone_buffer g)"
  shows "buffer (geophone_buffer (snd (main_iteration i (l, g)))) =
           (buffer (geophone_buffer g))[unat (index (geophone_buffer g)) :=
              velocity_m_s (acquire_geophone_sample (adc i) (clock_sample i))]
    \<and> buffer (geophone_buffer (snd (main_iteration i (l, g)))) ! unat (index (geophone_buffer g)) =
        velocity_m_s (acquire_geophone_sample (adc i) (clock_sample i))
    \<and> unat (index (geophone_buffer (snd (main_iteration i (l, g))))) =
        (unat (index (geophone_buffer g)) + 1) mod WINDOW_SIZE
    \<and> last_sample_time (fst (main_iteration i (l, g))) = clock_now i"
proof -
  let ?v = "velocity_m_s (acquire_geophone_sample (adc i) (clock_sample i))"
  have d: "acquisition_due (clock_now i) l"
    using assms(1) by (simp add: acquisition_due_def)
  have b: "geophone_buffer (snd (main_iteration i (l, g))) =
      geophone_buffer (buffer_add_sample ?v g)"
    and t: "last_sample_time (fst (main_iteration i (l, g))) = clock_now i"
    using iteration_acquisition [of i l g] d by simp_all
  have r: "unat (index (geophone_buffer g)) < length (buffer (geophone_buffer g))"
    using assms(2) by (simp add: window_ok_def)
  have m: "unat (index (geophone_buffer (buffer_add_sample ?v g))) =
      (unat (index (geophone_buffer g)) + 1) mod WINDOW_SIZE"
    using push_all_index [OF assms(2), of "[?v]"] by simp
  show ?thesis
    using r m t by (simp add: b push_buffer)
qed

theorem acquisition_always_pushes_witness:
  "SAMPLE_PERIOD_MS \<le> clock_now tick_a - last_sample_time locals_0
   \<and> window_ok (geophone_buffer globals_init)
   \<and> buffer (geophone_buffer (snd (main_iteration tick_a (locals_0, globals_init)))) ! 0 =
        velocity_m_s (acquire_geophone_sample (adc tick_a) (clock_sample tick_a))
   \<and> unat (index (geophone_buffer (snd (main_iteration tick_a (locals_0, globals_init))))) = 1"
proof -
  have h: "SAMPLE_PERIOD_MS \<le> clock_now tick_a - last_sample_time locals_0"
    by (simp add: tick_a_def locals_0_def SAMPLE_PERIOD_MS_def)
  show ?thesis
    using h window_ok_init acquisition_always_pushes [OF h window_ok_init]
    by (simp add: WINDOW_SIZE_def)
qed

text \<open>
  Claim C9 as stated fails: with every ADC read returning 65535, beyond the 12-bit range,
  the converted voltage is about 52.8 V, above the 3.3 V reference, and the resulting
  velocity of about 1.78 m/s is pushed into slot 0.
\<close>

theorem overrange_sample_counterexample:
  "SAMPLE_PERIOD_MS \<le> clock_now tick_overrange - last_sample_time locals_0
   \<and> 4095 < read_adc_averaged (adc tick_overrange)
   \<and> fgt (raw_voltage (acquire_geophone_sample (adc tick_overrange) (clock_sample tick_overrange)))
        ADC_VREF
   \<and> buffer (geophone_buffer (snd (main_iteration tick_overrange (locals_0, globals_init)))) ! 0 =
        Finite (7451019 / 4194304)
   \<and> unat (index (geophone_buffer (snd (main_iteration tick_overrange (locals_0, globals_init))))) = 1"
proof -
  have a: "adc tick_overrange = (\<lambda>k. 65535)" by (simp add: tick_overrange_def)
  have d: "acquisition_due (clock_now tick_overrange) locals_0"
    by (simp add: acquisition_due_def tick_overrange_def tick_a_def locals_0_def
          SAMPLE_PERIOD_MS_def)
  have g: "geophone_buffer (snd (main_iteration tick_overrange (locals_0, globals_init))) =
      geophone_buffer (buffer_add_sample (Finite (7451019 / 4194304)) globals_init)"
    using iteration_acquisition(2) [of tick_overrange locals_0 globals_init] d
    by (simp add: a overrange_sample)
  have v: "fgt (Finite (3461093 / 65536)) ADC_VREF"
    by (simp add: ADC_VREF_value fgt_def)
  have w: "(4095 :: 32 word) < 65535" by simp
  show ?thesis
    using d v w
    by (simp add: g a overrange_average overrange_sample push_buffer push_index
          acquisition_due_def WINDOW_SIZE_def)
qed

end
